theory Spec2Isabelle
  imports Main "HOL-Library.Word"
begin

unbundle bit_operations_syntax

section \<open>Common types and constants\<close>

type_synonym u8 = "8 word"
type_synonym u16 = "16 word"
type_synonym u32 = "32 word"
type_synonym u64 = "64 word"

text \<open>
  A \<^verbatim>\<open>uint8_t *cdb\<close> is modelled by the bytes found at the pointer, indexed by
  offset: \<open>cdb i\<close> is \<^verbatim>\<open>cdb[i]\<close>.
\<close>

type_synonym cdb = "nat \<Rightarrow> u8"

text \<open>The errno values of \<^verbatim>\<open><errno.h>\<close> on Linux.\<close>

definition EIO :: int where "EIO = 5"
definition EBUSY :: int where "EBUSY = 16"
definition EINVAL :: int where "EINVAL = 22"

text \<open>
  The status codes returned to the transport layer. The enumeration itself is declared
  in \<^verbatim>\<open>libtcmu_common.h\<close>; only the names used by \<^verbatim>\<open>api.c\<close> appear here.
\<close>

datatype tcmu_sts =
    TCMU_STS_OK
  | TCMU_STS_NO_RESOURCE
  | TCMU_STS_HW_ERR
  | TCMU_STS_INVALID_CDB
  | TCMU_STS_INVALID_PARAM_LIST_LEN
  | TCMU_STS_INVALID_PARAM_LIST
  | TCMU_STS_PASSTHROUGH_ERR

section \<open>CDB decoder (\<^verbatim>\<open>api.c\<close>)\<close>

text \<open>
  \<^verbatim>\<open>tcmu_get_cdb_length\<close>: the switch on \<^verbatim>\<open>cdb[0] >> 5\<close>. The result is a C
  \<^verbatim>\<open>int\<close>; \<^verbatim>\<open>8 + cdb[7]\<close> is computed after integer promotion, so it does not
  wrap.
\<close>

definition tcmu_get_cdb_length :: "cdb \<Rightarrow> int" where
  "tcmu_get_cdb_length cdb =
     (let group_code = drop_bit 5 (cdb 0) in
      if group_code = 0 then 6
      else if group_code = 1 \<or> group_code = 2 then 10
      else if group_code = 3 then
        (if cdb 0 = 0x7f then 8 + uint (cdb 7) else - EINVAL)
      else if group_code = 4 then 16
      else if group_code = 5 then 12
      else - EINVAL)"

text \<open>A CDB given by its bytes; offsets past the end read as zero.\<close>

definition cdb_of :: "u8 list \<Rightarrow> cdb" where
  "cdb_of bs = (\<lambda>i. if i < length bs then bs ! i else 0)"

section \<open>Device recovery and lock state (\<^verbatim>\<open>tcmur_device.c\<close>)\<close>

text \<open>
  Modelled from the spec: the \<^verbatim>\<open>TCMUR_DEV_FLAG_*\<close> macros and the lock-state
  enumeration are declared in \<^verbatim>\<open>tcmur_device.h\<close>, which is not part of the sources.
  The spec gives the flags as a bitmask over IN_RECOVERY, SHUTTING_DOWN and IS_OPEN and
  the lock state as UNLOCKED, LOCKING, LOCKED. A bitmask over distinct single-bit flags
  is a set of flags: \<^verbatim>\<open>flags & F\<close> is membership, \<^verbatim>\<open>flags |= F\<close> is insertion and
  \<^verbatim>\<open>flags &= ~F\<close> is removal.
\<close>

datatype tcmur_dev_flag =
    TCMUR_DEV_FLAG_IN_RECOVERY
  | TCMUR_DEV_FLAG_SHUTTING_DOWN
  | TCMUR_DEV_FLAG_IS_OPEN

datatype tcmur_dev_lock =
    TCMUR_DEV_LOCK_UNLOCKED
  | TCMUR_DEV_LOCK_LOCKING
  | TCMUR_DEV_LOCK_LOCKED

text \<open>
  The fields of \<^verbatim>\<open>struct tcmur_device\<close> that \<^verbatim>\<open>tcmur_device.c\<close> reads or writes.
  A thread handle is a number; \<open>None\<close> is a handle that was never assigned. The mutex
  \<^verbatim>\<open>state_lock\<close> is not a field of the model: every function below is one or several
  critical sections, each of which is atomic.
\<close>

record tcmur_device =
  flags :: "tcmur_dev_flag set"
  lock_state :: tcmur_dev_lock
  recovery_thread :: "nat option"
  lock_thread :: "nat option"

definition tcmu_dev_in_recovery :: "tcmur_device \<Rightarrow> bool" where
  "tcmu_dev_in_recovery rdev = (TCMUR_DEV_FLAG_IN_RECOVERY \<in> flags rdev)"

text \<open>
  What the collaborators answer during one call of \<^verbatim>\<open>__tcmu_reopen_dev\<close>:
  the result of \<^verbatim>\<open>aio_wait_for_empty_queue\<close>; the result of \<^verbatim>\<open>pthread_join\<close> on
  the lock thread together with the lock state that thread leaves behind; and, for each
  successive call of the handler's \<^verbatim>\<open>open\<close>, its result and whether another thread
  set SHUTTING_DOWN while the mutex was released for that call.
\<close>

record reopen_env =
  aio_wait_ret :: int
  lock_join :: "int \<times> tcmur_dev_lock"
  open_rets :: "(int \<times> bool) list"

text \<open>\<^verbatim>\<open>tcmu_cancel_lock_thread\<close>: join the lock thread when the state is LOCKING.\<close>

definition tcmu_cancel_lock_thread ::
  "int \<times> tcmur_dev_lock \<Rightarrow> tcmur_device \<Rightarrow> int \<times> tcmur_device" where
  "tcmu_cancel_lock_thread lj rdev =
     (if lock_state rdev \<noteq> TCMUR_DEV_LOCK_LOCKING then (0, rdev)
      else (fst lj, rdev\<lparr>lock_state := snd lj\<rparr>))"

text \<open>
  The retry loop of \<^verbatim>\<open>__tcmu_reopen_dev\<close>:
  \<^verbatim>\<open>while (ret != 0 && !(rdev->flags & TCMUR_DEV_FLAG_SHUTTING_DOWN))\<close>.
  The loop may run forever; it is driven by the list of answers of \<^verbatim>\<open>open\<close>, and
  \<open>None\<close> says that the loop is still running when the list is used up.
\<close>

fun reopen_loop ::
  "tcmur_device \<Rightarrow> int \<Rightarrow> (int \<times> bool) list \<Rightarrow> (int \<times> tcmur_device) option" where
  "reopen_loop rdev ret [] =
     (if ret \<noteq> 0 \<and> TCMUR_DEV_FLAG_SHUTTING_DOWN \<notin> flags rdev then None
      else Some (ret, rdev))"
| "reopen_loop rdev ret ((r, sd) # outs) =
     (if ret \<noteq> 0 \<and> TCMUR_DEV_FLAG_SHUTTING_DOWN \<notin> flags rdev then
        (let rdev1 = (if sd then rdev\<lparr>flags := insert TCMUR_DEV_FLAG_SHUTTING_DOWN (flags rdev)\<rparr>
                      else rdev);
             rdev2 = (if r = 0 then rdev1\<lparr>flags := insert TCMUR_DEV_FLAG_IS_OPEN (flags rdev1)\<rparr>
                      else rdev1)
         in reopen_loop rdev2 r outs)
      else Some (ret, rdev))"

text \<open>The label \<^verbatim>\<open>done:\<close> of \<^verbatim>\<open>__tcmu_reopen_dev\<close>.\<close>

definition reopen_done :: "int \<Rightarrow> tcmur_device \<Rightarrow> int \<times> tcmur_device" where
  "reopen_done ret rdev = (ret, rdev\<lparr>flags := flags rdev - {TCMUR_DEV_FLAG_IN_RECOVERY}\<rparr>)"

definition tcmu_reopen_dev_locked ::
  "reopen_env \<Rightarrow> tcmur_device \<Rightarrow> (int \<times> tcmur_device) option" where
  "tcmu_reopen_dev_locked env rdev =
     (let ret = aio_wait_ret env in
      if ret \<noteq> 0 then Some (reopen_done ret rdev)
      else if TCMUR_DEV_FLAG_SHUTTING_DOWN \<in> flags rdev then Some (reopen_done 0 rdev)
      else
        (let rdev1 = snd (tcmu_cancel_lock_thread (lock_join env) rdev);
             rdev2 = (if lock_state rdev1 \<noteq> TCMUR_DEV_LOCK_LOCKING
                      then rdev1\<lparr>lock_state := TCMUR_DEV_LOCK_UNLOCKED\<rparr> else rdev1);
             rdev3 = rdev2\<lparr>flags := flags rdev2 - {TCMUR_DEV_FLAG_IS_OPEN}\<rparr>
         in case reopen_loop rdev3 (- EIO) (open_rets env) of
              None \<Rightarrow> None
            | Some (ret', rdev4) \<Rightarrow> Some (reopen_done ret' rdev4)))"

text \<open>
  \<^verbatim>\<open>tcmu_reopen_dev\<close>. Its first critical section is \<open>reopen_enter\<close>: the busy
  check and the setting of IN_RECOVERY under one hold of the mutex, with \<open>Inl\<close> the
  value returned at once. \<^verbatim>\<open>__tcmu_reopen_dev\<close> (above, \<open>tcmu_reopen_dev_locked\<close>)
  follows.
\<close>

definition reopen_enter :: "tcmur_device \<Rightarrow> int + tcmur_device" where
  "reopen_enter rdev =
     (if TCMUR_DEV_FLAG_IN_RECOVERY \<in> flags rdev then Inl (- EBUSY)
      else Inr (rdev\<lparr>flags := insert TCMUR_DEV_FLAG_IN_RECOVERY (flags rdev)\<rparr>))"

definition tcmu_reopen_dev ::
  "reopen_env \<Rightarrow> tcmur_device \<Rightarrow> (int \<times> tcmur_device) option" where
  "tcmu_reopen_dev env rdev =
     (case reopen_enter rdev of
        Inl busy \<Rightarrow> Some (busy, rdev)
      | Inr rdev' \<Rightarrow> tcmu_reopen_dev_locked env rdev')"

text \<open>
  \<^verbatim>\<open>tcmu_notify_conn_lost\<close>. The arguments \<open>ret\<close> and \<open>tid\<close> are what
  \<^verbatim>\<open>pthread_create\<close> answers if it is called: its result and the handle of the new
  thread. The boolean of the result says whether a recovery task was created.
\<close>

definition tcmu_notify_conn_lost ::
  "int \<Rightarrow> nat \<Rightarrow> tcmur_device \<Rightarrow> tcmur_device \<times> bool" where
  "tcmu_notify_conn_lost ret tid rdev =
     (if TCMUR_DEV_FLAG_IN_RECOVERY \<in> flags rdev then (rdev, False)
      else if ret \<noteq> 0 then (rdev, False)
      else (rdev\<lparr>recovery_thread := Some tid,
                 flags := insert TCMUR_DEV_FLAG_IN_RECOVERY (flags rdev)\<rparr>, True))"

definition tcmu_notify_lock_lost :: "tcmur_device \<Rightarrow> tcmur_device" where
  "tcmu_notify_lock_lost rdev =
     (if lock_state rdev \<noteq> TCMUR_DEV_LOCK_LOCKING
      then rdev\<lparr>lock_state := TCMUR_DEV_LOCK_UNLOCKED\<rparr> else rdev)"

text \<open>
  The interleaving of the threads of one device, at the grain of the critical sections:
  a thread enters \<^verbatim>\<open>tcmu_reopen_dev\<close>; a handler reports a lost connection; a
  recovery episode that is in progress runs \<^verbatim>\<open>__tcmu_reopen_dev\<close> to its end (if
  the retry loop ends); a handler reports a lost lock. \<open>episodes\<close> counts the recovery
  episodes in progress: one starts when \<^verbatim>\<open>tcmu_reopen_dev\<close> passes its busy check or
  when \<^verbatim>\<open>tcmu_notify_conn_lost\<close> creates the recovery task, and it ends when
  \<^verbatim>\<open>__tcmu_reopen_dev\<close> returns.
\<close>

datatype dev_event =
    Ev_reopen_enter
  | Ev_conn_lost int nat
  | Ev_reopen_finish reopen_env
  | Ev_lock_lost

record dev_sys =
  sys_dev :: tcmur_device
  episodes :: nat

definition dev_step :: "dev_sys \<Rightarrow> dev_event \<Rightarrow> dev_sys" where
  "dev_step s ev =
     (case ev of
        Ev_reopen_enter \<Rightarrow>
          (case reopen_enter (sys_dev s) of
             Inl busy \<Rightarrow> s
           | Inr rdev \<Rightarrow> s\<lparr>sys_dev := rdev, episodes := episodes s + 1\<rparr>)
      | Ev_conn_lost ret tid \<Rightarrow>
          (let (rdev, created) = tcmu_notify_conn_lost ret tid (sys_dev s)
           in s\<lparr>sys_dev := rdev, episodes := episodes s + (if created then 1 else 0)\<rparr>)
      | Ev_reopen_finish env \<Rightarrow>
          (if episodes s = 0 then s
           else (case tcmu_reopen_dev_locked env (sys_dev s) of
                   None \<Rightarrow> s
                 | Some (ret, rdev) \<Rightarrow> s\<lparr>sys_dev := rdev, episodes := episodes s - 1\<rparr>))
      | Ev_lock_lost \<Rightarrow> s\<lparr>sys_dev := tcmu_notify_lock_lost (sys_dev s)\<rparr>)"

definition dev_run :: "dev_sys \<Rightarrow> dev_event list \<Rightarrow> dev_sys" where
  "dev_run s evs = foldl dev_step s evs"

text \<open>A device as it is registered: not in recovery, no episode in progress.\<close>

definition dev_registered :: "dev_sys \<Rightarrow> bool" where
  "dev_registered s =
     (TCMUR_DEV_FLAG_IN_RECOVERY \<notin> flags (sys_dev s) \<and> episodes s = 0)"

section \<open>Memory, buffers and iovecs (\<^verbatim>\<open>api.c\<close>)\<close>

text \<open>
  The memory the iovecs point into is a store from addresses to bytes. A
  \<^verbatim>\<open>struct iovec\<close> is a base address and a length. A flat buffer that the code owns
  (a local array, or the \<^verbatim>\<open>src\<close> and \<^verbatim>\<open>dest\<close> arguments of the copy functions)
  is the list of its bytes. Sizes are \<^verbatim>\<open>size_t\<close> in the source; the copy loops only
  ever subtract a minimum from its arguments and add up to at most the requested length,
  so natural numbers follow them exactly.
\<close>

type_synonym memory = "nat \<Rightarrow> u8"

record iovec =
  iov_base :: nat
  iov_len :: nat

text \<open>\<^verbatim>\<open>memcpy\<close> from a list of bytes into memory, and from memory into a list.\<close>

definition mem_write :: "memory \<Rightarrow> nat \<Rightarrow> u8 list \<Rightarrow> memory" where
  "mem_write mem dst bs =
     (\<lambda>a. if dst \<le> a \<and> a < dst + length bs then bs ! (a - dst) else mem a)"

definition mem_read :: "memory \<Rightarrow> nat \<Rightarrow> nat \<Rightarrow> u8 list" where
  "mem_read mem src n = map mem [src ..< src + n]"

text \<open>\<^verbatim>\<open>memcpy(buf + off, bs, length bs)\<close> inside a flat buffer.\<close>

definition buf_write :: "u8 list \<Rightarrow> nat \<Rightarrow> u8 list \<Rightarrow> u8 list" where
  "buf_write buf off bs = take off buf @ bs @ drop (off + length bs) buf"

text \<open>\<^verbatim>\<open>iovec->iov_base += n; iovec->iov_len -= n;\<close>\<close>

definition iovec_advance :: "iovec \<Rightarrow> nat \<Rightarrow> iovec" where
  "iovec_advance v n = v\<lparr>iov_base := iov_base v + n, iov_len := iov_len v - n\<rparr>"

text \<open>
  \<^verbatim>\<open>tcmu_memcpy_into_iovec\<close>. The loop \<^verbatim>\<open>while (len && iov_cnt)\<close> walks the
  array; the list is the whole array, and the code must not be given an \<open>iov_cnt\<close>
  larger than it. The result is the count returned, the array as the loop leaves it,
  and the memory. \<open>src\<close> holds at least \<open>len\<close> bytes.
\<close>

fun memcpy_into_loop ::
  "memory \<Rightarrow> iovec list \<Rightarrow> nat \<Rightarrow> u8 list \<Rightarrow> nat \<Rightarrow> nat \<Rightarrow> nat \<times> iovec list \<times> memory" where
  "memcpy_into_loop mem [] iov_cnt src len copied = (copied, [], mem)"
| "memcpy_into_loop mem (v # vs) iov_cnt src len copied =
     (if len \<noteq> 0 \<and> iov_cnt \<noteq> 0 then
        (let to_copy = min (iov_len v) len in
         if to_copy \<noteq> 0 then
           (case memcpy_into_loop (mem_write mem (iov_base v) (take to_copy (drop copied src)))
                   vs (iov_cnt - 1) src (len - to_copy) (copied + to_copy) of
              (c, vs', mem') \<Rightarrow> (c, iovec_advance v to_copy # vs', mem'))
         else
           (case memcpy_into_loop mem vs (iov_cnt - 1) src len copied of
              (c, vs', mem') \<Rightarrow> (c, v # vs', mem')))
      else (copied, v # vs, mem))"

definition tcmu_memcpy_into_iovec ::
  "memory \<Rightarrow> iovec list \<Rightarrow> nat \<Rightarrow> u8 list \<Rightarrow> nat \<Rightarrow> nat \<times> iovec list \<times> memory" where
  "tcmu_memcpy_into_iovec mem iovec iov_cnt src len =
     memcpy_into_loop mem iovec iov_cnt src len 0"

text \<open>
  \<^verbatim>\<open>tcmu_memcpy_from_iovec\<close>. The result is the count returned, the array as the
  loop leaves it, and \<open>dest\<close>, which holds at least \<open>len\<close> bytes.
\<close>

fun memcpy_from_loop ::
  "memory \<Rightarrow> u8 list \<Rightarrow> nat \<Rightarrow> iovec list \<Rightarrow> nat \<Rightarrow> nat \<Rightarrow> nat \<times> iovec list \<times> u8 list" where
  "memcpy_from_loop mem dest len [] iov_cnt copied = (copied, [], dest)"
| "memcpy_from_loop mem dest len (v # vs) iov_cnt copied =
     (if len \<noteq> 0 \<and> iov_cnt \<noteq> 0 then
        (let to_copy = min (iov_len v) len in
         if to_copy \<noteq> 0 then
           (case memcpy_from_loop mem (buf_write dest copied (mem_read mem (iov_base v) to_copy))
                   (len - to_copy) vs (iov_cnt - 1) (copied + to_copy) of
              (c, vs', dest') \<Rightarrow> (c, iovec_advance v to_copy # vs', dest'))
         else
           (case memcpy_from_loop mem dest len vs (iov_cnt - 1) copied of
              (c, vs', dest') \<Rightarrow> (c, v # vs', dest')))
      else (copied, v # vs, dest))"

definition tcmu_memcpy_from_iovec ::
  "memory \<Rightarrow> u8 list \<Rightarrow> nat \<Rightarrow> iovec list \<Rightarrow> nat \<Rightarrow> nat \<times> iovec list \<times> u8 list" where
  "tcmu_memcpy_from_iovec mem dest len iovec iov_cnt =
     memcpy_from_loop mem dest len iovec iov_cnt 0"

text \<open>
  The vocabulary of the properties: the total length of an iovec set, the addresses of
  its concatenated segments in order (position \<open>i\<close> of the iovec set is the address
  \<open>iovec_addrs vs ! i\<close>), and the effect of storing byte \<open>i\<close> of a list at the
  \<open>i\<close>-th address of a list of addresses, one byte after the other.
\<close>

definition iovec_total :: "iovec list \<Rightarrow> nat" where
  "iovec_total vs = sum_list (map iov_len vs)"

definition iovec_addrs :: "iovec list \<Rightarrow> nat list" where
  "iovec_addrs vs = concat (map (\<lambda>v. [iov_base v ..< iov_base v + iov_len v]) vs)"

fun scatter :: "memory \<Rightarrow> nat list \<Rightarrow> u8 list \<Rightarrow> memory" where
  "scatter mem (a # as) (b # bs) = scatter (mem(a := b)) as bs"
| "scatter mem _ _ = mem"

section \<open>Big-endian fields\<close>

text \<open>
  \<open>be_bytes n w\<close> is the low \<open>n\<close> bytes of \<open>w\<close>, most significant first: what
  \<^verbatim>\<open>put_unaligned_be16/24/32/64\<close> store, and what \<^verbatim>\<open>htobe16/32/64\<close> followed by
  a \<^verbatim>\<open>memcpy\<close> of the value stores, on a host of either byte order. \<open>be_nat\<close>
  reads a big-endian field back as a number.
\<close>

definition be_bytes :: "nat \<Rightarrow> 'a::len word \<Rightarrow> u8 list" where
  "be_bytes n w = map (\<lambda>k. ucast (drop_bit (8 * k) w)) (rev [0 ..< n])"

fun be_nat :: "u8 list \<Rightarrow> nat" where
  "be_nat [] = 0"
| "be_nat (b # bs) = unat b * 256 ^ length bs + be_nat bs"

section \<open>READ CAPACITY (\<^verbatim>\<open>api.c\<close>)\<close>

text \<open>
  The 8-byte response of \<^verbatim>\<open>tcmu_emulate_read_capacity_10\<close>. \<^verbatim>\<open>num_lbas-1\<close> is
  computed in 64 bits and narrowed to 32 bits by \<^verbatim>\<open>htobe32\<close>. In the other branch
  \<^verbatim>\<open>val32 = 0xffffffff\<close> is copied as it lies in memory: four bytes \<open>0xff\<close>.
\<close>

definition read_capacity_10_buf :: "u64 \<Rightarrow> u32 \<Rightarrow> u8 list" where
  "read_capacity_10_buf num_lbas block_size =
     (let buf0 = replicate 8 0;
          val32 = (if num_lbas < 0x100000000
                   then be_bytes 4 (ucast (num_lbas - 1) :: u32)
                   else replicate 4 0xff);
          buf1 = buf_write buf0 0 val32;
          buf2 = buf_write buf1 4 (be_bytes 4 block_size)
      in buf2)"

definition tcmu_emulate_read_capacity_10 ::
  "memory \<Rightarrow> u64 \<Rightarrow> u32 \<Rightarrow> cdb \<Rightarrow> iovec list \<Rightarrow> nat \<Rightarrow> tcmu_sts \<times> iovec list \<times> memory" where
  "tcmu_emulate_read_capacity_10 mem num_lbas block_size cdb iovec iov_cnt =
     (TCMU_STS_OK,
      snd (tcmu_memcpy_into_iovec mem iovec iov_cnt
             (read_capacity_10_buf num_lbas block_size) 8))"

text \<open>The 32-byte response of \<^verbatim>\<open>tcmu_emulate_read_capacity_16\<close>.\<close>

definition read_capacity_16_buf :: "u64 \<Rightarrow> u32 \<Rightarrow> u8 list" where
  "read_capacity_16_buf num_lbas block_size =
     (let buf0 = replicate 32 0;
          buf1 = buf_write buf0 0 (be_bytes 8 (num_lbas - 1));
          buf2 = buf_write buf1 8 (be_bytes 4 block_size);
          buf3 = buf2[14 := 0x80];
          buf4 = buf3[14 := buf3 ! 14 OR 0x40]
      in buf4)"

definition tcmu_emulate_read_capacity_16 ::
  "memory \<Rightarrow> u64 \<Rightarrow> u32 \<Rightarrow> cdb \<Rightarrow> iovec list \<Rightarrow> nat \<Rightarrow> tcmu_sts \<times> iovec list \<times> memory" where
  "tcmu_emulate_read_capacity_16 mem num_lbas block_size cdb iovec iov_cnt =
     (TCMU_STS_OK,
      snd (tcmu_memcpy_into_iovec mem iovec iov_cnt
             (read_capacity_16_buf num_lbas block_size) 32))"

section \<open>MODE SENSE and MODE SELECT (\<^verbatim>\<open>api.c\<close>)\<close>

text \<open>
  Modelled from the spec: \<^verbatim>\<open>struct tcmu_device\<close> and its accessors
  (\<^verbatim>\<open>tcmu_get_dev_block_size\<close>, \<^verbatim>\<open>tcmu_get_dev_num_lbas\<close>,
  \<^verbatim>\<open>tcmu_get_dev_write_cache_enabled\<close>, \<^verbatim>\<open>tcmu_get_wwn\<close>, \<^verbatim>\<open>cfgstring\<close>) are
  declared outside the sources. The spec lists them as read-only values of the device
  handle; \<open>dev_wwn\<close> is \<open>None\<close> when \<^verbatim>\<open>tcmu_get_wwn\<close> returns \<^verbatim>\<open>NULL\<close>. A C string
  is the list of its bytes before the terminating NUL.
\<close>

record tcmu_device =
  dev_block_size :: u32
  dev_num_lbas :: u64
  dev_write_cache_enabled :: bool
  dev_wwn :: "u8 list option"
  dev_cfgstring :: "u8 list"

text \<open>The operation codes of \<^verbatim>\<open><scsi/scsi.h>\<close>.\<close>

definition MODE_SELECT :: u8 where "MODE_SELECT = 0x15"
definition MODE_SENSE :: u8 where "MODE_SENSE = 0x1a"
definition MODE_SELECT_10 :: u8 where "MODE_SELECT_10 = 0x55"

text \<open>
  \<^verbatim>\<open>tcmu_get_xfer_length\<close>. The default branch is \<^verbatim>\<open>assert_perror(EINVAL)\<close>, which
  aborts the process: \<open>None\<close>.
\<close>

definition tcmu_get_xfer_length :: "cdb \<Rightarrow> nat option" where
  "tcmu_get_xfer_length cdb =
     (let l = tcmu_get_cdb_length cdb in
      if l = 6 then Some (unat (cdb 4))
      else if l = 10 then Some (be_nat [cdb 7, cdb 8])
      else if l = 12 then Some (be_nat [cdb 6, cdb 7, cdb 8, cdb 9])
      else if l = 16 then Some (be_nat [cdb 10, cdb 11, cdb 12, cdb 13])
      else None)"

text \<open>
  \<^verbatim>\<open>copy_to_response_buf\<close>. The response buffer is the list \<open>mem\<close> of the bytes that
  start at \<^verbatim>\<open>orig_buf\<close>; a pointer into it is an offset, and \<^verbatim>\<open>NULL\<close> is \<open>None\<close>.
\<close>

definition copy_to_response_buf ::
  "u8 list \<Rightarrow> nat option \<Rightarrow> nat \<Rightarrow> u8 list \<Rightarrow> nat \<Rightarrow> u8 list" where
  "copy_to_response_buf mem to_buf to_len from_buf from_len =
     (case to_buf of
        None \<Rightarrow> mem
      | Some off \<Rightarrow>
          buf_write mem off (take (if to_len > from_len then from_len else to_len) from_buf))"

text \<open>
  The three page handlers. Each of them fills a local array, hands it with its size to
  \<^verbatim>\<open>copy_to_response_buf\<close> and returns that size. \<open>handle_*_page\<close> is the array a
  handler fills; \<open>handler_get\<close> below is the tail they share.
\<close>

definition handle_rwrecovery_page :: "tcmu_device \<Rightarrow> u8 list" where
  "handle_rwrecovery_page dev = (replicate 12 0)[0 := 0x1, 1 := 0xa]"

definition handle_cache_page :: "tcmu_device \<Rightarrow> u8 list" where
  "handle_cache_page dev =
     (let buf = (replicate 20 0)[0 := 0x8, 1 := 0x12]
      in if dev_write_cache_enabled dev then buf[2 := 0x4] else buf)"

definition handle_control_page :: "tcmu_device \<Rightarrow> u8 list" where
  "handle_control_page dev =
     (replicate 12 0)[0 := 0x0a, 1 := 0x0a, 2 := 0x02, 5 := 0x40, 8 := 0xff, 9 := 0xff]"

record mode_sense_handler =
  page :: u8
  subpage :: u8
  get :: "tcmu_device \<Rightarrow> u8 list"

definition handler_get ::
  "mode_sense_handler \<Rightarrow> tcmu_device \<Rightarrow> u8 list \<Rightarrow> nat option \<Rightarrow> nat \<Rightarrow> u8 list \<times> nat" where
  "handler_get h dev mem ret_buf ret_buf_len =
     (let buf = get h dev
      in (copy_to_response_buf mem ret_buf ret_buf_len buf (length buf), length buf))"

definition modesense_handlers :: "mode_sense_handler list" where
  "modesense_handlers =
     [\<lparr>page = 0x1, subpage = 0, get = handle_rwrecovery_page\<rparr>,
      \<lparr>page = 0x8, subpage = 0, get = handle_cache_page\<rparr>,
      \<lparr>page = 0xa, subpage = 0, get = handle_control_page\<rparr>]"















text \<open>
  The handler lookup of \<^verbatim>\<open>tcmu_emulate_mode_select\<close>: \<open>Inl\<close> a status returned from
  inside the loop, \<open>Inr\<close> the local \<^verbatim>\<open>buf\<close>, \<^verbatim>\<open>ret\<close> and \<^verbatim>\<open>got_sense\<close> after it.
\<close>

fun mode_select_lookup ::
  "tcmu_device \<Rightarrow> mode_sense_handler list \<Rightarrow> u8 \<Rightarrow> u8 \<Rightarrow> bool \<Rightarrow> nat \<Rightarrow> u8 list
     \<Rightarrow> tcmu_sts + (u8 list \<times> nat \<times> bool)" where
  "mode_select_lookup dev [] page_code subpage_code select_ten hdr_len buf = Inr (buf, 0, False)"
| "mode_select_lookup dev (h # hs) page_code subpage_code select_ten hdr_len buf =
     (if page_code = page h \<and> subpage_code = subpage h then
        (case handler_get h dev buf (Some hdr_len) (512 - hdr_len) of
           (buf', ret) \<Rightarrow>
             if ret \<le> 0 then Inl TCMU_STS_INVALID_CDB
             else if \<not> select_ten \<and> hdr_len + ret \<ge> 255 then Inl TCMU_STS_INVALID_CDB
             else Inr (buf', ret, True))
      else mode_select_lookup dev hs page_code subpage_code select_ten hdr_len buf)"

text \<open>
  \<^verbatim>\<open>tcmu_emulate_mode_select\<close> over a table of handlers. \<open>in_buf0\<close> is what the
  uninitialised local array \<^verbatim>\<open>in_buf[512]\<close> holds on entry. \<open>None\<close> when
  \<^verbatim>\<open>tcmu_get_xfer_length\<close> aborts; otherwise the status and the iovec array.
\<close>

definition tcmu_emulate_mode_select_with ::
  "mode_sense_handler list \<Rightarrow> u8 list \<Rightarrow> memory \<Rightarrow> tcmu_device \<Rightarrow> cdb \<Rightarrow> iovec list \<Rightarrow> nat
     \<Rightarrow> (tcmu_sts \<times> iovec list) option" where
  "tcmu_emulate_mode_select_with handlers in_buf0 mem dev cdb iovec iov_cnt =
     (case tcmu_get_xfer_length cdb of
        None \<Rightarrow> None
      | Some alloc_len \<Rightarrow>
          (let select_ten = (cdb 0 = MODE_SELECT_10);
               page_code = cdb 2 AND 0x3f;
               subpage_code = cdb 3;
               hdr_len = (if select_ten then 8 else 4 :: nat)
           in if alloc_len = 0 then Some (TCMU_STS_OK, iovec)
              else
                (case tcmu_memcpy_from_iovec mem in_buf0 512 iovec iov_cnt of
                   (copied, iovec', in_buf) \<Rightarrow>
                     if copied \<ge> 512 then Some (TCMU_STS_INVALID_PARAM_LIST_LEN, iovec')
                     else if cdb 1 AND 0x10 = 0 \<or> cdb 1 AND 0x01 \<noteq> 0
                       then Some (TCMU_STS_INVALID_CDB, iovec')
                     else
                       (case mode_select_lookup dev handlers page_code subpage_code select_ten
                               hdr_len (replicate 512 0) of
                          Inl sts \<Rightarrow> Some (sts, iovec')
                        | Inr (buf, ret, got_sense) \<Rightarrow>
                            if \<not> got_sense then Some (TCMU_STS_INVALID_CDB, iovec')
                            else if alloc_len < hdr_len + ret
                              then Some (TCMU_STS_INVALID_PARAM_LIST_LEN, iovec')
                            else if take ret (drop hdr_len buf) \<noteq> take ret (drop hdr_len in_buf)
                              then Some (TCMU_STS_INVALID_PARAM_LIST, iovec')
                            else Some (TCMU_STS_OK, iovec')))))"

definition tcmu_emulate_mode_select ::
  "u8 list \<Rightarrow> memory \<Rightarrow> tcmu_device \<Rightarrow> cdb \<Rightarrow> iovec list \<Rightarrow> nat
     \<Rightarrow> (tcmu_sts \<times> iovec list) option" where
  "tcmu_emulate_mode_select = tcmu_emulate_mode_select_with modesense_handlers"

text \<open>
  The vocabulary of the properties of MODE SELECT: the size of the parameter list header,
  and the parameter list that an iovec set supplies (the bytes of its concatenated
  segments).
\<close>

definition msel_hdr :: "cdb \<Rightarrow> nat" where
  "msel_hdr cdb = (if cdb 0 = MODE_SELECT_10 then 8 else 4)"

definition iovec_bytes :: "memory \<Rightarrow> iovec list \<Rightarrow> u8 list" where
  "iovec_bytes mem vs = map mem (iovec_addrs vs)"

section \<open>EVPD page 0x83, device identification (\<^verbatim>\<open>api.c\<close>)\<close>

text \<open>
  Modelled from the spec: \<^verbatim>\<open>struct tgt_port\<close> and \<^verbatim>\<open>struct tgt_port_grp\<close> are
  declared in \<^verbatim>\<open>target.h\<close>, which is not part of the sources. The spec lists the
  protocol id, the relative port id, the wwn string, the target port group tag, and the
  id and TPGS bits of the parent group.
\<close>

record tgt_port_grp =
  grp_id :: u16
  grp_tpgs :: u8

record tgt_port =
  proto_id :: u8
  rel_port_id :: u16
  port_wwn :: "u8 list"
  tpgt :: u16
  grp :: tgt_port_grp

text \<open>
  The local array \<^verbatim>\<open>char data[512]\<close> is given by its contents at the offsets below
  512. Every store into it is checked against \<^verbatim>\<open>sizeof(data)\<close>: a store that does
  not lie inside the array is undefined behaviour in C, and here it is the fault
  \<open>OUT_OF_BOUNDS\<close>, which ends the run. \<open>and_then\<close> sequences two steps of which the
  first may fault.
\<close>

datatype fault = OUT_OF_BOUNDS

definition and_then :: "fault + 'a \<Rightarrow> ('a \<Rightarrow> fault + 'b) \<Rightarrow> fault + 'b" where
  "and_then r f = (case r of Inl e \<Rightarrow> Inl e | Inr x \<Rightarrow> f x)"

definition data_store :: "memory \<Rightarrow> nat \<Rightarrow> u8 list \<Rightarrow> fault + memory" where
  "data_store data off bs =
     (if off + length bs \<le> 512 then Inr (mem_write data off bs) else Inl OUT_OF_BOUNDS)"

text \<open>
  Unsigned \<^verbatim>\<open>size_t\<close> subtraction, \<open>(a - b) mod 2^64\<close>, for \<open>a\<close> and \<open>b\<close> below
  \<open>2^64\<close>.
\<close>

definition size_sub :: "nat \<Rightarrow> nat \<Rightarrow> nat" where
  "size_sub a b = (if b \<le> a then a - b else 2 ^ 64 - (b - a))"

text \<open>
  \<^verbatim>\<open>snprintf(&data[dst], sz, ...)\<close> for an output string \<open>s\<close>: when \<open>sz\<close> is not
  zero, the first \<open>sz - 1\<close> bytes of \<open>s\<close> (all of \<open>s\<close> when it is shorter) and a NUL
  are stored; the length of \<open>s\<close> is returned whatever was stored.
\<close>

definition c_snprintf :: "memory \<Rightarrow> nat \<Rightarrow> nat \<Rightarrow> u8 list \<Rightarrow> fault + (memory \<times> nat)" where
  "c_snprintf data dst sz s =
     (if sz = 0 then Inr (data, length s)
      else and_then (data_store data dst (take (sz - 1) s @ [0])) (\<lambda>d. Inr (d, length s)))"

text \<open>\<^verbatim>\<open>char_to_hex\<close>: \<open>None\<close> is \<^verbatim>\<open>false\<close>, \<open>Some val\<close> is \<^verbatim>\<open>true\<close> with \<^verbatim>\<open>*val\<close>.\<close>

definition char_to_hex :: "u8 \<Rightarrow> u8 option" where
  "char_to_hex c =
     (if 0x30 \<le> c \<and> c \<le> 0x39 then Some (c - 0x30)
      else if 0x61 \<le> c \<and> c \<le> 0x66 then Some (c - 0x61 + 10)
      else if 0x41 \<le> c \<and> c \<le> 0x46 then Some (c - 0x41 + 10)
      else None)"

text \<open>The output of \<^verbatim>\<open>%04x\<close> for a 16-bit value: four lower-case hex digits.\<close>

definition hex_digit :: "nat \<Rightarrow> u8" where
  "hex_digit n = (if n < 10 then of_nat (0x30 + n) else of_nat (0x61 + (n - 10)))"

definition fmt_04x :: "u16 \<Rightarrow> u8 list" where
  "fmt_04x v =
     [hex_digit (unat v div 4096 mod 16), hex_digit (unat v div 256 mod 16),
      hex_digit (unat v div 16 mod 16), hex_digit (unat v mod 16)]"

text \<open>The string \<^verbatim>\<open>"%s,t,0x%04x"\<close> of the port's wwn and tpgt.\<close>

definition scsi_name_string :: "tgt_port \<Rightarrow> u8 list" where
  "scsi_name_string port = port_wwn port @ [0x2c, 0x74, 0x2c, 0x30, 0x78] @ fmt_04x (tpgt port)"

text \<open>
  The length computation shared by the last two descriptors, from the value \<open>n\<close> that
  \<^verbatim>\<open>snprintf\<close> returned: \<^verbatim>\<open>len += 1; padding = ((-len) & 3); if (padding) len +=
  padding; if (len > 256) len = 256;\<close> in \<^verbatim>\<open>size_t\<close> arithmetic.
\<close>

definition designator_len :: "nat \<Rightarrow> nat" where
  "designator_len n =
     (let len = (n + 1) mod 2 ^ 64;
          padding = ((2 ^ 64 - len) mod 2 ^ 64) mod 4;
          len1 = (if padding \<noteq> 0 then (len + padding) mod 2 ^ 64 else len)
      in if len1 > 256 then 256 else len1)"

text \<open>
  The descriptors of page 0x83, one function each, in the order of the stores of the
  source. The state is the contents of \<^verbatim>\<open>data\<close> and \<^verbatim>\<open>used\<close>; \<^verbatim>\<open>ptr\<close> is always
  \<^verbatim>\<open>&data[4] + used\<close>, that is offset \<open>4 + used\<close>. The byte \<^verbatim>\<open>ptr[3]\<close> is a
  \<^verbatim>\<open>char\<close>: it holds the low 8 bits of what is assigned to it.
\<close>

definition evpd83_t10 :: "u8 list \<Rightarrow> memory \<times> nat \<Rightarrow> fault + (memory \<times> nat)" where
  "evpd83_t10 wwn st =
     (let (data, used) = st; ptr = 4 + used in
      and_then (data_store data ptr [2, 1]) (\<lambda>d1.
      and_then (data_store d1 (ptr + 4) [0x4c, 0x49, 0x4f, 0x2d, 0x4f, 0x52, 0x47, 0x20]) (\<lambda>d2.
      and_then (c_snprintf d2 (ptr + 12) (512 - 16) wwn) (\<lambda>(d3, len).
      and_then (data_store d3 (ptr + 3) [of_nat (8 + len + 1)]) (\<lambda>d4.
      Inr (d4, used + (unat (d4 (ptr + 3)) + 4)))))))"

fun naa_loop :: "memory \<Rightarrow> nat \<Rightarrow> u8 list \<Rightarrow> nat \<Rightarrow> bool \<Rightarrow> fault + memory" where
  "naa_loop data ptr [] i nxt = Inr data"
| "naa_loop data ptr (c # p) i nxt =
     (if i < 20 then
        (case char_to_hex c of
           None \<Rightarrow> naa_loop data ptr p i nxt
         | Some val \<Rightarrow>
             if nxt then
               (case data_store data (ptr + i) [data (ptr + i) OR val] of
                  Inl e \<Rightarrow> Inl e
                | Inr d \<Rightarrow> naa_loop d ptr p (i + 1) False)
             else
               (case data_store data (ptr + i) [push_bit 4 val] of
                  Inl e \<Rightarrow> Inl e
                | Inr d \<Rightarrow> naa_loop d ptr p i True))
      else Inr data)"

definition evpd83_naa :: "u8 list \<Rightarrow> memory \<times> nat \<Rightarrow> fault + (memory \<times> nat)" where
  "evpd83_naa wwn st =
     (let (data, used) = st; ptr = 4 + used in
      and_then (data_store data ptr [1, 3]) (\<lambda>d1.
      and_then (data_store d1 (ptr + 3) [16, 0x60, 0x01, 0x40, 0x50]) (\<lambda>d2.
      and_then (naa_loop d2 ptr wwn 7 True) (\<lambda>d3.
      Inr (d3, used + 20)))))"

definition evpd83_vendor :: "u8 list \<Rightarrow> memory \<times> nat \<Rightarrow> fault + (memory \<times> nat)" where
  "evpd83_vendor cfgstring st =
     (let (data, used) = st; ptr = 4 + used in
      and_then (data_store data ptr [2, 0]) (\<lambda>d1.
      and_then (c_snprintf d1 (ptr + 4) (size_sub (size_sub 512 used) 4) cfgstring) (\<lambda>(d2, len).
      and_then (data_store d2 (ptr + 3) [of_nat (len + 1)]) (\<lambda>d3.
      Inr (d3, used + (unat (d3 (ptr + 3)) + 4))))))"

definition evpd83_rel_port :: "tgt_port \<Rightarrow> memory \<times> nat \<Rightarrow> fault + (memory \<times> nat)" where
  "evpd83_rel_port port st =
     (let (data, used) = st; ptr = 4 + used in
      and_then (data_store data ptr [push_bit 4 (proto_id port) OR 0x1, 0x80 OR 0x10 OR 0x4]) (\<lambda>d1.
      and_then (data_store d1 (ptr + 3) [4]) (\<lambda>d2.
      and_then (data_store d2 (ptr + 6)
                  [ucast (drop_bit 8 (rel_port_id port) AND 0xff),
                   ucast (rel_port_id port AND 0xff)]) (\<lambda>d3.
      Inr (d3, used + 8)))))"

definition evpd83_tpg :: "tgt_port \<Rightarrow> memory \<times> nat \<Rightarrow> fault + (memory \<times> nat)" where
  "evpd83_tpg port st =
     (let (data, used) = st; ptr = 4 + used in
      and_then (data_store data ptr [push_bit 4 (proto_id port) OR 0x1, 0x80 OR 0x10 OR 0x5]) (\<lambda>d1.
      and_then (data_store d1 (ptr + 3) [4]) (\<lambda>d2.
      and_then (data_store d2 (ptr + 6)
                  [ucast (drop_bit 8 (grp_id (grp port)) AND 0xff),
                   ucast (grp_id (grp port) AND 0xff)]) (\<lambda>d3.
      Inr (d3, used + 8)))))"

definition evpd83_scsi_name :: "tgt_port \<Rightarrow> memory \<times> nat \<Rightarrow> fault + (memory \<times> nat)" where
  "evpd83_scsi_name port st =
     (let (data, used) = st; ptr = 4 + used in
      and_then (data_store data ptr [push_bit 4 (proto_id port) OR 0x3, 0x80 OR 0x10 OR 0x8]) (\<lambda>d1.
      and_then (c_snprintf d1 (ptr + 4) (size_sub (size_sub 512 used) 4)
                  (scsi_name_string port)) (\<lambda>(d2, n).
      and_then (data_store d2 (ptr + 3) [of_nat (designator_len n)]) (\<lambda>d3.
      Inr (d3, used + (designator_len n + 4))))))"

definition evpd83_target_dev :: "tgt_port \<Rightarrow> memory \<times> nat \<Rightarrow> fault + (memory \<times> nat)" where
  "evpd83_target_dev port st =
     (let (data, used) = st; ptr = 4 + used in
      and_then (data_store data ptr [push_bit 4 (proto_id port) OR 0x3, 0x80 OR 0x20 OR 0x8]) (\<lambda>d1.
      and_then (c_snprintf d1 (ptr + 4) (size_sub (size_sub 512 used) 4) (port_wwn port)) (\<lambda>(d2, n).
      and_then (data_store d2 (ptr + 3) [of_nat (designator_len n)]) (\<lambda>d3.
      Inr (d3, used + (designator_len n + 4))))))"

text \<open>The label \<^verbatim>\<open>finish_page83\<close>: \<^verbatim>\<open>*tot_len = htobe16(used)\<close> at \<^verbatim>\<open>&data[2]\<close>.\<close>

definition evpd83_finish :: "memory \<times> nat \<Rightarrow> fault + (memory \<times> nat)" where
  "evpd83_finish st =
     (let (data, used) = st in
      and_then (data_store data 2 (be_bytes 2 (of_nat used :: u16))) (\<lambda>d. Inr (d, used)))"

text \<open>
  The state after \<^verbatim>\<open>memset(data, 0, sizeof(data)); data[1] = 0x83;\<close> with
  \<^verbatim>\<open>used = 0\<close>, and the states after the first three and the first five descriptors.
\<close>

definition evpd83_init :: "memory \<times> nat" where
  "evpd83_init = ((\<lambda>a. 0)(1 := 0x83), 0)"

definition evpd83_three :: "tcmu_device \<Rightarrow> u8 list \<Rightarrow> fault + (memory \<times> nat)" where
  "evpd83_three dev wwn =
     and_then (evpd83_t10 wwn evpd83_init) (\<lambda>s1.
     and_then (evpd83_naa wwn s1) (\<lambda>s2.
     evpd83_vendor (dev_cfgstring dev) s2))"

definition evpd83_five :: "tcmu_device \<Rightarrow> u8 list \<Rightarrow> tgt_port \<Rightarrow> fault + (memory \<times> nat)" where
  "evpd83_five dev wwn port =
     and_then (evpd83_three dev wwn) (\<lambda>s3.
     and_then (evpd83_rel_port port s3) (\<lambda>s4.
     evpd83_tpg port s4))"

text \<open>
  The branch \<^verbatim>\<open>case 0x83\<close> of \<^verbatim>\<open>tcmu_emulate_evpd_inquiry\<close>. \<open>evpd83_data\<close> is the
  array and \<^verbatim>\<open>used\<close> at the end, for the string \<open>wwn\<close> that \<^verbatim>\<open>tcmu_get_wwn\<close>
  returned. The whole branch returns hardware-error when \<^verbatim>\<open>tcmu_get_wwn\<close> returns
  \<^verbatim>\<open>NULL\<close>, and otherwise copies \<^verbatim>\<open>used + 4\<close> bytes of \<^verbatim>\<open>data\<close> into the iovec:
  \<^verbatim>\<open>tcmu_memcpy_into_iovec\<close> reads as many bytes of the array as it reports, so a
  count above 512 is a read past the end of the array.
\<close>

definition evpd83_data ::
  "tcmu_device \<Rightarrow> u8 list \<Rightarrow> tgt_port option \<Rightarrow> fault + (memory \<times> nat)" where
  "evpd83_data dev wwn port =
     (case port of
        None \<Rightarrow> and_then (evpd83_three dev wwn) evpd83_finish
      | Some p \<Rightarrow>
          and_then (evpd83_five dev wwn p) (\<lambda>s5.
          and_then (evpd83_scsi_name p s5) (\<lambda>s6.
          and_then (evpd83_target_dev p s6) evpd83_finish)))"

definition tcmu_emulate_evpd_inquiry_0x83 ::
  "memory \<Rightarrow> tcmu_device \<Rightarrow> tgt_port option \<Rightarrow> iovec list \<Rightarrow> nat
     \<Rightarrow> fault + (tcmu_sts \<times> iovec list \<times> memory)" where
  "tcmu_emulate_evpd_inquiry_0x83 mem dev port iovec iov_cnt =
     (case dev_wwn dev of
        None \<Rightarrow> Inr (TCMU_STS_HW_ERR, iovec, mem)
      | Some wwn \<Rightarrow>
          and_then (evpd83_data dev wwn port) (\<lambda>(data, used).
            (case tcmu_memcpy_into_iovec mem iovec iov_cnt (map data [0 ..< 512]) (used + 4) of
               (copied, iovec', mem') \<Rightarrow>
                 if copied \<le> 512 then Inr (TCMU_STS_OK, iovec', mem')
                 else Inl OUT_OF_BOUNDS)))"

section \<open>Sample inputs\<close>

definition dev0 :: tcmur_device where
  "dev0 = \<lparr>flags = {TCMUR_DEV_FLAG_IS_OPEN}, lock_state = TCMUR_DEV_LOCK_LOCKED,
           recovery_thread = None, lock_thread = None\<rparr>"

definition dev0_recovering :: tcmur_device where
  "dev0_recovering = dev0\<lparr>flags := {TCMUR_DEV_FLAG_IN_RECOVERY, TCMUR_DEV_FLAG_IS_OPEN}\<rparr>"

definition env0 :: reopen_env where
  "env0 = \<lparr>aio_wait_ret = 0, lock_join = (0, TCMUR_DEV_LOCK_LOCKED),
           open_rets = [(- 5, False), (0, False)]\<rparr>"

definition mem0 :: memory where "mem0 = (\<lambda>a. 0)"
definition mem1 :: memory where "mem1 = (\<lambda>a. of_nat a)"
definition iov3 :: "iovec list" where
  "iov3 = [\<lparr>iov_base = 100, iov_len = 3\<rparr>, \<lparr>iov_base = 200, iov_len = 0\<rparr>,
           \<lparr>iov_base = 300, iov_len = 2\<rparr>]"


definition tdev0 :: tcmu_device where
  "tdev0 = \<lparr>dev_block_size = 512, dev_num_lbas = 5, dev_write_cache_enabled = True,
            dev_wwn = Some [0x61, 0x62], dev_cfgstring = [0x63]\<rparr>"





definition cdb_sel6 :: "u8 \<Rightarrow> cdb" where
  "cdb_sel6 alloc = cdb_of [0x15, 0x10, 0x01, 0, alloc, 0]"

definition cdb_sel10_512 :: cdb where
  "cdb_sel10_512 = cdb_of [0x55, 0x10, 0x01, 0, 0, 0, 0, 2, 0, 0]"

definition h_rw :: mode_sense_handler where
  "h_rw = \<lparr>page = 0x1, subpage = 0, get = handle_rwrecovery_page\<rparr>"

text \<open>Memory that holds the read-write recovery page at address \<open>off\<close>, zero elsewhere.\<close>

definition mem_rw :: "nat \<Rightarrow> memory" where
  "mem_rw off = (\<lambda>a. if a = off then 0x1 else if a = off + 1 then 0xa else 0)"

definition iov16 :: "iovec list" where
  "iov16 = [\<lparr>iov_base = 0, iov_len = 16\<rparr>]"

definition iov512 :: "iovec list" where
  "iov512 = [\<lparr>iov_base = 0, iov_len = 512\<rparr>]"

definition port0 :: tgt_port where
  "port0 = \<lparr>proto_id = 5, rel_port_id = 1, port_wwn = [0x69, 0x71, 0x6e], tpgt = 0x1a,
            grp = \<lparr>grp_id = 2, grp_tpgs = 0x10\<rparr>\<rparr>"

text \<open>A port whose wwn has 223 bytes, the longest iSCSI name.\<close>

definition port_iqn :: tgt_port where
  "port_iqn = port0\<lparr>port_wwn := replicate 223 0x61\<rparr>"

section \<open>Theorems\<close>

subsection \<open>CDB length\<close>

lemma group_code_div: "unat (drop_bit 5 (w :: u8)) = unat w div 32"
  by (simp add: drop_bit_eq_div unat_div)

lemma group_code_le: "unat (w :: u8) div 32 \<le> 7"
proof -
  have "unat w < 2 ^ LENGTH(8)" by (rule unsigned_less)
  then show ?thesis by simp
qed

lemma cdb_length_groups:
  "tcmu_get_cdb_length cdb =
     (let g = unat (cdb 0) div 32 in
      if g = 0 then 6 else if g = 1 \<or> g = 2 then 10
      else if g = 3 then (if cdb 0 = 0x7f then 8 + int (unat (cdb 7)) else - EINVAL)
      else if g = 4 then 16 else if g = 5 then 12 else - EINVAL)"
  unfolding tcmu_get_cdb_length_def Let_def
  by (simp add: word_unat_eq_iff[where 'a=8] group_code_div)

text \<open>
  Claim C5. The group code is bits 7-5 of byte 0, that is \<open>unat (cdb 0) div 32\<close>, and
  lies in 0..7. Group 0 gives 6; groups 1 and 2 give 10; group 4 gives 16; group 5 gives
  12; in group 3 the result is \<open>8 + cdb[7]\<close> if and only if byte 0 is \<open>0x7f\<close>, and
  \<open>-EINVAL\<close> otherwise; groups 6 and 7 give \<open>-EINVAL\<close>. Outside group 3 two CDBs of
  the same group have the same length.
\<close>

theorem cdb_length_by_group:
  "unat (cdb 0) div 32 \<le> 7 \<and>
   (unat (cdb 0) div 32 = 0 \<longrightarrow> tcmu_get_cdb_length cdb = 6) \<and>
   (unat (cdb 0) div 32 = 1 \<or> unat (cdb 0) div 32 = 2 \<longrightarrow> tcmu_get_cdb_length cdb = 10) \<and>
   (unat (cdb 0) div 32 = 4 \<longrightarrow> tcmu_get_cdb_length cdb = 16) \<and>
   (unat (cdb 0) div 32 = 5 \<longrightarrow> tcmu_get_cdb_length cdb = 12) \<and>
   (unat (cdb 0) div 32 = 3 \<longrightarrow>
      (tcmu_get_cdb_length cdb = 8 + int (unat (cdb 7)) \<longleftrightarrow> cdb 0 = 0x7f) \<and>
      (cdb 0 \<noteq> 0x7f \<longrightarrow> tcmu_get_cdb_length cdb = - EINVAL)) \<and>
   (unat (cdb 0) div 32 = 6 \<or> unat (cdb 0) div 32 = 7 \<longrightarrow>
      tcmu_get_cdb_length cdb = - EINVAL) \<and>
   (unat (cdb 0) div 32 = unat (cdb' 0) div 32 \<and> unat (cdb 0) div 32 \<noteq> 3 \<longrightarrow>
      tcmu_get_cdb_length cdb = tcmu_get_cdb_length cdb')"
proof -
  have nn: "8 + int (unat (cdb 7)) \<noteq> - 22" by linarith
  show ?thesis
    using nn
    by (simp add: cdb_length_groups [of cdb] cdb_length_groups [of cdb'] group_code_le
          Let_def EINVAL_def del: of_nat_unat)
qed

theorem cdb_length_by_group_witness:
  "tcmu_get_cdb_length (cdb_of [0x12, 0, 0, 0, 36, 0]) = 6 \<and>
   tcmu_get_cdb_length (cdb_of [0x28, 0, 0, 0, 0, 0, 0, 0, 1, 0]) = 10 \<and>
   tcmu_get_cdb_length (cdb_of [0x5a, 0, 0x3f, 0, 0, 0, 0, 0, 64, 0]) = 10 \<and>
   tcmu_get_cdb_length (cdb_of [0x7f, 0, 0, 0, 0, 0, 0, 0x18]) = 32 \<and>
   tcmu_get_cdb_length (cdb_of [0x7e, 0, 0, 0, 0, 0, 0, 0x18]) = - 22 \<and>
   tcmu_get_cdb_length (cdb_of [0x88]) = 16 \<and>
   tcmu_get_cdb_length (cdb_of [0xa8]) = 12 \<and>
   tcmu_get_cdb_length (cdb_of [0xc0]) = - 22 \<and>
   tcmu_get_cdb_length (cdb_of [0xff]) = - 22"
  using cdb_length_by_group [of "cdb_of [0x12, 0, 0, 0, 36, 0]" "cdb_of [0x12]"]
    cdb_length_by_group [of "cdb_of [0x28, 0, 0, 0, 0, 0, 0, 0, 1, 0]" "cdb_of [0x28]"]
    cdb_length_by_group [of "cdb_of [0x5a, 0, 0x3f, 0, 0, 0, 0, 0, 64, 0]" "cdb_of [0x5a]"]
    cdb_length_by_group [of "cdb_of [0x7f, 0, 0, 0, 0, 0, 0, 0x18]" "cdb_of [0x7f]"]
    cdb_length_by_group [of "cdb_of [0x7e, 0, 0, 0, 0, 0, 0, 0x18]" "cdb_of [0x7e]"]
    cdb_length_by_group [of "cdb_of [0x88]" "cdb_of [0x88]"]
    cdb_length_by_group [of "cdb_of [0xa8]" "cdb_of [0xa8]"]
    cdb_length_by_group [of "cdb_of [0xc0]" "cdb_of [0xc0]"]
    cdb_length_by_group [of "cdb_of [0xff]" "cdb_of [0xff]"]
  by (simp add: cdb_of_def EINVAL_def)

subsection \<open>Recovery is single-flight\<close>

lemma reopen_locked_clears:
  "tcmu_reopen_dev_locked env rdev = Some (ret, rdev') \<Longrightarrow>
   TCMUR_DEV_FLAG_IN_RECOVERY \<notin> flags rdev'"
  by (auto simp: tcmu_reopen_dev_locked_def reopen_done_def Let_def
           split: if_splits option.splits)

lemma dev_step_inv:
  assumes "episodes s = (if TCMUR_DEV_FLAG_IN_RECOVERY \<in> flags (sys_dev s) then 1 else 0)"
  shows "episodes (dev_step s ev) =
           (if TCMUR_DEV_FLAG_IN_RECOVERY \<in> flags (sys_dev (dev_step s ev)) then 1 else 0)"
proof (cases ev)
  case Ev_reopen_enter
  with assms show ?thesis
    by (auto simp: dev_step_def reopen_enter_def)
next
  case (Ev_conn_lost ret tid)
  with assms show ?thesis
    by (auto simp: dev_step_def tcmu_notify_conn_lost_def)
next
  case (Ev_reopen_finish env)
  with assms show ?thesis
    by (auto simp: dev_step_def dest: reopen_locked_clears split: option.splits if_splits)
next
  case Ev_lock_lost
  with assms show ?thesis
    by (auto simp: dev_step_def tcmu_notify_lock_lost_def)
qed

lemma dev_run_inv:
  "episodes s = (if TCMUR_DEV_FLAG_IN_RECOVERY \<in> flags (sys_dev s) then 1 else 0) \<Longrightarrow>
   episodes (dev_run s evs) =
     (if TCMUR_DEV_FLAG_IN_RECOVERY \<in> flags (sys_dev (dev_run s evs)) then 1 else 0)"
  unfolding dev_run_def
proof (induction evs arbitrary: s)
  case Nil
  then show ?case by simp
next
  case (Cons ev evs)
  from Cons.prems have "episodes (dev_step s ev) =
      (if TCMUR_DEV_FLAG_IN_RECOVERY \<in> flags (sys_dev (dev_step s ev)) then 1 else 0)"
    by (rule dev_step_inv)
  then show ?case using Cons.IH [of "dev_step s ev"] by simp
qed

text \<open>
  Claim C1. On a device whose IN_RECOVERY flag is set, \<^verbatim>\<open>tcmu_reopen_dev\<close> returns
  \<open>-EBUSY\<close> and leaves the whole device state (flags and lock state among it) as it
  was, whatever the collaborators would answer, and \<^verbatim>\<open>tcmu_notify_conn_lost\<close>
  changes nothing and creates no recovery task. Hence, in every interleaving of the
  critical sections that starts from a registered device, at most one recovery episode
  is in progress, and one is in progress exactly when IN_RECOVERY is set.
\<close>

theorem recovery_single_flight:
  "(TCMUR_DEV_FLAG_IN_RECOVERY \<in> flags rdev \<longrightarrow>
      tcmu_reopen_dev env rdev = Some (- EBUSY, rdev) \<and>
      tcmu_notify_conn_lost ret tid rdev = (rdev, False)) \<and>
   (dev_registered s \<longrightarrow>
      episodes (dev_run s evs) \<le> 1 \<and>
      (episodes (dev_run s evs) = 1 \<longleftrightarrow>
         TCMUR_DEV_FLAG_IN_RECOVERY \<in> flags (sys_dev (dev_run s evs))))"
proof (intro conjI impI)
  assume "TCMUR_DEV_FLAG_IN_RECOVERY \<in> flags rdev"
  then show "tcmu_reopen_dev env rdev = Some (- EBUSY, rdev)"
    by (simp add: tcmu_reopen_dev_def reopen_enter_def)
next
  assume "TCMUR_DEV_FLAG_IN_RECOVERY \<in> flags rdev"
  then show "tcmu_notify_conn_lost ret tid rdev = (rdev, False)"
    by (simp add: tcmu_notify_conn_lost_def)
next
  assume "dev_registered s"
  then have "episodes (dev_run s evs) =
      (if TCMUR_DEV_FLAG_IN_RECOVERY \<in> flags (sys_dev (dev_run s evs)) then 1 else 0)"
    by (intro dev_run_inv) (simp add: dev_registered_def)
  then show "episodes (dev_run s evs) \<le> 1"
    by simp
next
  assume "dev_registered s"
  then have "episodes (dev_run s evs) =
      (if TCMUR_DEV_FLAG_IN_RECOVERY \<in> flags (sys_dev (dev_run s evs)) then 1 else 0)"
    by (intro dev_run_inv) (simp add: dev_registered_def)
  then show "episodes (dev_run s evs) = 1 \<longleftrightarrow>
         TCMUR_DEV_FLAG_IN_RECOVERY \<in> flags (sys_dev (dev_run s evs))"
    by simp
qed

theorem recovery_single_flight_witness:
  "TCMUR_DEV_FLAG_IN_RECOVERY \<in> flags dev0_recovering \<and>
   tcmu_reopen_dev env0 dev0_recovering = Some (- 16, dev0_recovering) \<and>
   tcmu_notify_conn_lost 0 7 dev0_recovering = (dev0_recovering, False) \<and>
   dev_registered \<lparr>sys_dev = dev0, episodes = 0\<rparr> \<and>
   episodes (dev_run \<lparr>sys_dev = dev0, episodes = 0\<rparr>
               [Ev_reopen_enter, Ev_reopen_enter, Ev_conn_lost 0 7]) = 1"
  using recovery_single_flight
    [of dev0_recovering env0 0 7 "\<lparr>sys_dev = dev0, episodes = 0\<rparr>"
        "[Ev_reopen_enter, Ev_reopen_enter, Ev_conn_lost 0 7]"]
  by (simp add: dev0_def dev0_recovering_def dev_registered_def EBUSY_def dev_run_def
        dev_step_def reopen_enter_def tcmu_notify_conn_lost_def)

subsection \<open>Losing the lock\<close>

text \<open>
  Claim C9. \<^verbatim>\<open>tcmu_notify_lock_lost\<close> sets the lock state to UNLOCKED when it is
  UNLOCKED or LOCKED, leaves it when it is LOCKING, and in every case leaves the flags
  and every other field of the device state as they were.
\<close>

theorem notify_lock_lost_frame:
  "(lock_state rdev = TCMUR_DEV_LOCK_UNLOCKED \<or> lock_state rdev = TCMUR_DEV_LOCK_LOCKED \<longrightarrow>
      lock_state (tcmu_notify_lock_lost rdev) = TCMUR_DEV_LOCK_UNLOCKED) \<and>
   (lock_state rdev = TCMUR_DEV_LOCK_LOCKING \<longrightarrow>
      lock_state (tcmu_notify_lock_lost rdev) = TCMUR_DEV_LOCK_LOCKING) \<and>
   flags (tcmu_notify_lock_lost rdev) = flags rdev \<and>
   recovery_thread (tcmu_notify_lock_lost rdev) = recovery_thread rdev \<and>
   lock_thread (tcmu_notify_lock_lost rdev) = lock_thread rdev \<and>
   tcmu_notify_lock_lost rdev = rdev\<lparr>lock_state := lock_state (tcmu_notify_lock_lost rdev)\<rparr>"
  by (simp add: tcmu_notify_lock_lost_def)

theorem notify_lock_lost_frame_witness:
  "lock_state (tcmu_notify_lock_lost dev0) = TCMUR_DEV_LOCK_UNLOCKED \<and>
   lock_state (tcmu_notify_lock_lost (dev0\<lparr>lock_state := TCMUR_DEV_LOCK_LOCKING\<rparr>))
     = TCMUR_DEV_LOCK_LOCKING \<and>
   flags (tcmu_notify_lock_lost dev0_recovering)
     = {TCMUR_DEV_FLAG_IN_RECOVERY, TCMUR_DEV_FLAG_IS_OPEN}"
  using notify_lock_lost_frame [of dev0]
    notify_lock_lost_frame [of "dev0\<lparr>lock_state := TCMUR_DEV_LOCK_LOCKING\<rparr>"]
    notify_lock_lost_frame [of dev0_recovering]
  by (simp add: dev0_def dev0_recovering_def)

subsection \<open>Copying between a flat buffer and an iovec\<close>

lemma iovec_total_Cons: "iovec_total (v # vs) = iov_len v + iovec_total vs"
  by (simp add: iovec_total_def)

lemma iovec_addrs_Cons:
  "iovec_addrs (v # vs) = [iov_base v ..< iov_base v + iov_len v] @ iovec_addrs vs"
  by (simp add: iovec_addrs_def)

lemma length_iovec_addrs: "length (iovec_addrs vs) = iovec_total vs"
  by (induction vs) (simp_all add: iovec_addrs_def iovec_total_def)

lemma scatter_append:
  "length as = length bs \<Longrightarrow> scatter mem (as @ as') (bs @ bs') = scatter (scatter mem as bs) as' bs'"
  by (induction mem as bs rule: scatter.induct) simp_all

lemma scatter_outside: "a \<notin> set (take (length bs) as) \<Longrightarrow> scatter mem as bs a = mem a"
  by (induction mem as bs rule: scatter.induct) auto

lemma scatter_nth:
  "distinct as \<Longrightarrow> i < length as \<Longrightarrow> i < length bs \<Longrightarrow> scatter mem as bs (as ! i) = bs ! i"
proof (induction mem as bs arbitrary: i rule: scatter.induct)
  case (1 mem a as b bs)
  show ?case
  proof (cases i)
    case 0
    have "a \<notin> set (take (length bs) as)" using "1.prems"(1) by (auto dest: in_set_takeD)
    then show ?thesis using 0 by (simp add: scatter_outside)
  next
    case (Suc j)
    then show ?thesis using "1.prems" "1.IH" [of j] by (simp add: fun_upd_def)
  qed
qed simp_all

lemma mem_write_scatter: "mem_write mem dst bs = scatter mem [dst ..< dst + length bs] bs"
proof (induction bs arbitrary: mem dst)
  case Nil
  show ?case by (rule ext) (auto simp: mem_write_def)
next
  case (Cons b bs)
  have u: "[dst ..< dst + length (b # bs)] = dst # [Suc dst ..< Suc dst + length bs]"
    by (subst upt_rec) simp
  have m: "mem_write mem dst (b # bs) = mem_write (mem(dst := b)) (Suc dst) bs"
  proof (rule ext)
    fix a
    have "a - Suc dst = a - dst - 1" by simp
    then show "mem_write mem dst (b # bs) a = mem_write (mem(dst := b)) (Suc dst) bs a"
      by (auto simp: mem_write_def nth_Cons')
  qed
  show ?case unfolding u m by (simp only: scatter.simps Cons.IH)
qed

lemma memcpy_into_loop_count:
  "iov_cnt \<le> length vs \<Longrightarrow>
   fst (memcpy_into_loop mem vs iov_cnt src len copied) =
     copied + min len (iovec_total (take iov_cnt vs))"
proof (induction vs arbitrary: mem iov_cnt len copied)
  case Nil
  then show ?case by (simp add: iovec_total_def)
next
  case (Cons v vs)
  show ?case
  proof (cases "len \<noteq> 0 \<and> iov_cnt \<noteq> 0")
    case False
    then show ?thesis by (auto simp: iovec_total_def)
  next
    case True
    then obtain k where k: "iov_cnt = Suc k" by (cases iov_cnt) auto
    with Cons.prems have kl: "k \<le> length vs" by simp
    show ?thesis
      using True k Cons.IH [OF kl]
      by (auto simp: Let_def iovec_total_def case_prod_beta min_def)
  qed
qed

lemma memcpy_into_loop_mem:
  "iov_cnt \<le> length vs \<Longrightarrow> copied + len \<le> length src \<Longrightarrow>
   snd (snd (memcpy_into_loop mem vs iov_cnt src len copied)) =
     scatter mem (take (min len (iovec_total (take iov_cnt vs))) (iovec_addrs (take iov_cnt vs)))
       (take (min len (iovec_total (take iov_cnt vs))) (drop copied src))"
proof (induction vs arbitrary: mem iov_cnt len copied)
  case Nil
  then show ?case by (simp add: iovec_total_def)
next
  case (Cons v vs)
  show ?case
  proof (cases "len \<noteq> 0 \<and> iov_cnt \<noteq> 0")
    case False
    then show ?thesis by (auto simp: iovec_total_def)
  next
    case True
    then obtain k where k: "iov_cnt = Suc k" by (cases iov_cnt) auto
    with Cons.prems have kl: "k \<le> length vs" by simp
    define t where "t = min (iov_len v) len"
    define m where "m = min (len - t) (iovec_total (take k vs))"
    have tot: "iovec_total (take iov_cnt (v # vs)) = iov_len v + iovec_total (take k vs)"
      by (simp add: k iovec_total_def)
    have addrs: "iovec_addrs (take iov_cnt (v # vs)) =
        [iov_base v ..< iov_base v + iov_len v] @ iovec_addrs (take k vs)"
      by (simp add: k iovec_addrs_def)
    have n: "min len (iov_len v + iovec_total (take k vs)) = t + m"
      unfolding t_def m_def by auto
    show ?thesis
    proof (cases "t = 0")
      case True
      with \<open>len \<noteq> 0 \<and> iov_cnt \<noteq> 0\<close> have z: "iov_len v = 0" by (auto simp: t_def)
      show ?thesis
        using \<open>len \<noteq> 0 \<and> iov_cnt \<noteq> 0\<close> k z Cons.IH [OF kl, of copied len mem] Cons.prems(2)
        by (simp add: Let_def iovec_total_Cons iovec_addrs_Cons case_prod_beta)
    next
      case False
      have l1: "copied + t + (len - t) \<le> length src" using Cons.prems(2) by (simp add: t_def)
      have tle: "t \<le> length src - copied" using Cons.prems(2) by (simp add: t_def)
      then have lt: "length (take t (drop copied src)) = t" by simp
      have step: "snd (snd (memcpy_into_loop mem (v # vs) iov_cnt src len copied)) =
          snd (snd (memcpy_into_loop (mem_write mem (iov_base v) (take t (drop copied src)))
             vs k src (len - t) (copied + t)))"
        using \<open>len \<noteq> 0 \<and> iov_cnt \<noteq> 0\<close> k False
        by (simp add: Let_def t_def case_prod_beta)
      have a1: "take (t + m) ([iov_base v ..< iov_base v + iov_len v] @ iovec_addrs (take k vs))
          = [iov_base v ..< iov_base v + t] @ take m (iovec_addrs (take k vs))"
      proof (cases "iov_len v \<le> len")
        case True
        then show ?thesis by (simp add: t_def)
      next
        case False
        then have "t = len" "m = 0" by (simp_all add: t_def m_def)
        with False show ?thesis by (simp add: take_upt)
      qed
      have b1: "take (t + m) (drop copied src) = take t (drop copied src) @ take m (drop (copied + t) src)"
      proof -
        have "take (t + m) (drop copied src) =
            take t (drop copied src) @ take m (drop t (drop copied src))"
          by (rule take_add)
        moreover have "drop t (drop copied src) = drop (copied + t) src"
          by (simp add: add.commute)
        ultimately show ?thesis by simp
      qed
      have w: "mem_write mem (iov_base v) (take t (drop copied src)) =
          scatter mem [iov_base v ..< iov_base v + t] (take t (drop copied src))"
        using mem_write_scatter [of mem "iov_base v" "take t (drop copied src)"]
        by (simp only: lt)
      have app: "scatter mem ([iov_base v ..< iov_base v + t] @ take m (iovec_addrs (take k vs)))
            (take t (drop copied src) @ take m (drop (copied + t) src)) =
          scatter (mem_write mem (iov_base v) (take t (drop copied src)))
            (take m (iovec_addrs (take k vs))) (take m (drop (copied + t) src))"
        unfolding w by (rule scatter_append) (use tle in simp)
      show ?thesis
        unfolding step tot addrs n a1 b1 app
        using Cons.IH [OF kl l1, of "mem_write mem (iov_base v) (take t (drop copied src))"]
        by (simp only: m_def)
    qed
  qed
qed

lemma length_buf_write:
  "off + length bs \<le> length buf \<Longrightarrow> length (buf_write buf off bs) = length buf"
  by (simp add: buf_write_def)

lemma take_buf_write:
  "off \<le> length buf \<Longrightarrow> take (off + length bs) (buf_write buf off bs) = take off buf @ bs"
  by (simp add: buf_write_def)

lemma drop_buf_write:
  "off + length bs \<le> length buf \<Longrightarrow>
   drop (off + length bs + k) (buf_write buf off bs) = drop (off + length bs + k) buf"
  by (simp add: buf_write_def ac_simps)

lemma memcpy_from_loop_count:
  "iov_cnt \<le> length vs \<Longrightarrow>
   fst (memcpy_from_loop mem dest len vs iov_cnt copied) =
     copied + min len (iovec_total (take iov_cnt vs))"
proof (induction vs arbitrary: dest iov_cnt len copied)
  case Nil
  then show ?case by (simp add: iovec_total_def)
next
  case (Cons v vs)
  show ?case
  proof (cases "len \<noteq> 0 \<and> iov_cnt \<noteq> 0")
    case False
    then show ?thesis by (auto simp: iovec_total_def)
  next
    case True
    then obtain k where k: "iov_cnt = Suc k" by (cases iov_cnt) auto
    with Cons.prems have kl: "k \<le> length vs" by simp
    show ?thesis
      using True k Cons.IH [OF kl]
      by (auto simp: Let_def iovec_total_def case_prod_beta min_def)
  qed
qed

lemma memcpy_from_loop_dest:
  "iov_cnt \<le> length vs \<Longrightarrow> copied + len \<le> length dest \<Longrightarrow>
   snd (snd (memcpy_from_loop mem dest len vs iov_cnt copied)) =
     take copied dest @
     take (min len (iovec_total (take iov_cnt vs))) (map mem (iovec_addrs (take iov_cnt vs))) @
     drop (copied + min len (iovec_total (take iov_cnt vs))) dest"
proof (induction vs arbitrary: dest iov_cnt len copied)
  case Nil
  then show ?case by (simp add: iovec_total_def)
next
  case (Cons v vs)
  show ?case
  proof (cases "len \<noteq> 0 \<and> iov_cnt \<noteq> 0")
    case False
    then show ?thesis by (auto simp: iovec_total_def)
  next
    case True
    then obtain k where k: "iov_cnt = Suc k" by (cases iov_cnt) auto
    with Cons.prems have kl: "k \<le> length vs" by simp
    define t where "t = min (iov_len v) len"
    define m where "m = min (len - t) (iovec_total (take k vs))"
    define seg where "seg = mem_read mem (iov_base v) t"
    define dest1 where "dest1 = buf_write dest copied seg"
    have tot: "iovec_total (take iov_cnt (v # vs)) = iov_len v + iovec_total (take k vs)"
      by (simp add: k iovec_total_def)
    have addrs: "iovec_addrs (take iov_cnt (v # vs)) =
        [iov_base v ..< iov_base v + iov_len v] @ iovec_addrs (take k vs)"
      by (simp add: k iovec_addrs_def)
    have n: "min len (iov_len v + iovec_total (take k vs)) = t + m"
      unfolding t_def m_def by auto
    show ?thesis
    proof (cases "t = 0")
      case True
      with \<open>len \<noteq> 0 \<and> iov_cnt \<noteq> 0\<close> have z: "iov_len v = 0" by (auto simp: t_def)
      show ?thesis
        using \<open>len \<noteq> 0 \<and> iov_cnt \<noteq> 0\<close> k z Cons.IH [OF kl, of copied len dest] Cons.prems(2)
        by (simp add: Let_def iovec_total_Cons iovec_addrs_Cons case_prod_beta)
    next
      case False
      have lseg: "length seg = t" by (simp add: seg_def mem_read_def)
      have tle: "copied + t \<le> length dest" using Cons.prems(2) by (simp add: t_def)
      have ld: "length dest1 = length dest"
        unfolding dest1_def using tle by (simp add: length_buf_write lseg)
      have l1: "copied + t + (len - t) \<le> length dest1"
        using Cons.prems(2) by (simp add: t_def ld)
      have step: "snd (snd (memcpy_from_loop mem dest len (v # vs) iov_cnt copied)) =
          snd (snd (memcpy_from_loop mem dest1 (len - t) vs k (copied + t)))"
        using \<open>len \<noteq> 0 \<and> iov_cnt \<noteq> 0\<close> k False
        by (simp add: Let_def t_def dest1_def seg_def case_prod_beta)
      have a1: "take (t + m) (map mem ([iov_base v ..< iov_base v + iov_len v] @ iovec_addrs (take k vs)))
          = seg @ take m (map mem (iovec_addrs (take k vs)))"
      proof (cases "iov_len v \<le> len")
        case True
        then show ?thesis by (simp add: t_def seg_def mem_read_def)
      next
        case False
        then have "t = len" "m = 0" by (simp_all add: t_def m_def)
        with False show ?thesis by (simp add: take_upt seg_def mem_read_def take_map)
      qed
      have tk: "take (copied + t) dest1 = take copied dest @ seg"
        using take_buf_write [of copied dest seg] tle by (simp add: dest1_def lseg)
      have dr: "drop (copied + t + m) dest1 = drop (copied + (t + m)) dest"
        using drop_buf_write [of copied seg dest m] tle by (simp add: dest1_def lseg add.assoc)
      show ?thesis
        unfolding step tot addrs n a1
        using Cons.IH [OF kl l1]
        by (simp add: m_def [symmetric] tk dr)
    qed
  qed
qed

text \<open>
  Claim C6. For an iovec array with at least \<open>iov_cnt\<close> entries and a flat buffer of at
  least \<open>len\<close> bytes, \<^verbatim>\<open>tcmu_memcpy_into_iovec\<close> and \<^verbatim>\<open>tcmu_memcpy_from_iovec\<close>
  both return the minimum of \<open>len\<close> and the total length of the first \<open>iov_cnt\<close>
  segments. Copying into the iovec stores byte \<open>i\<close> of the buffer at position \<open>i\<close>
  of the concatenated segments, for each \<open>i\<close> below the count and in this order, and
  touches no other address; when the segments do not overlap, each position reads back the
  byte stored there. Copying from the iovec puts the byte at position \<open>i\<close> of the
  concatenated segments at offset \<open>i\<close> of the buffer and leaves the rest of the buffer
  as it was.
\<close>

theorem memcpy_iovec_transfers:
  assumes "iov_cnt \<le> length iovec" and "len \<le> length buf"
  shows
    "fst (tcmu_memcpy_into_iovec mem iovec iov_cnt buf len)
       = min len (iovec_total (take iov_cnt iovec)) \<and>
     snd (snd (tcmu_memcpy_into_iovec mem iovec iov_cnt buf len))
       = scatter mem (take (min len (iovec_total (take iov_cnt iovec)))
                        (iovec_addrs (take iov_cnt iovec)))
           (take (min len (iovec_total (take iov_cnt iovec))) buf) \<and>
     (\<forall>a. a \<notin> set (take (min len (iovec_total (take iov_cnt iovec)))
                        (iovec_addrs (take iov_cnt iovec))) \<longrightarrow>
          snd (snd (tcmu_memcpy_into_iovec mem iovec iov_cnt buf len)) a = mem a) \<and>
     (distinct (iovec_addrs (take iov_cnt iovec)) \<longrightarrow>
        (\<forall>i < min len (iovec_total (take iov_cnt iovec)).
           snd (snd (tcmu_memcpy_into_iovec mem iovec iov_cnt buf len))
             (iovec_addrs (take iov_cnt iovec) ! i) = buf ! i)) \<and>
     fst (tcmu_memcpy_from_iovec mem buf len iovec iov_cnt)
       = min len (iovec_total (take iov_cnt iovec)) \<and>
     length (snd (snd (tcmu_memcpy_from_iovec mem buf len iovec iov_cnt))) = length buf \<and>
     (\<forall>i < min len (iovec_total (take iov_cnt iovec)).
        snd (snd (tcmu_memcpy_from_iovec mem buf len iovec iov_cnt)) ! i
          = mem (iovec_addrs (take iov_cnt iovec) ! i)) \<and>
     (\<forall>i. min len (iovec_total (take iov_cnt iovec)) \<le> i \<and> i < length buf \<longrightarrow>
        snd (snd (tcmu_memcpy_from_iovec mem buf len iovec iov_cnt)) ! i = buf ! i)"
proof -
  define n where "n = min len (iovec_total (take iov_cnt iovec))"
  define addrs where "addrs = iovec_addrs (take iov_cnt iovec)"
  have nlen: "n \<le> len" and ntot: "n \<le> length addrs"
    by (simp_all add: n_def addrs_def length_iovec_addrs)
  have nbuf: "n \<le> length buf" using nlen assms(2) by simp
  have c1: "fst (tcmu_memcpy_into_iovec mem iovec iov_cnt buf len) = n"
    using memcpy_into_loop_count [OF assms(1), of mem buf len 0]
    by (simp add: tcmu_memcpy_into_iovec_def n_def)
  have m1: "snd (snd (tcmu_memcpy_into_iovec mem iovec iov_cnt buf len))
      = scatter mem (take n addrs) (take n buf)"
    using memcpy_into_loop_mem [OF assms(1), of 0 len buf mem] assms(2)
    by (simp add: tcmu_memcpy_into_iovec_def n_def addrs_def)
  have o1: "\<forall>a. a \<notin> set (take n addrs) \<longrightarrow> scatter mem (take n addrs) (take n buf) a = mem a"
  proof (intro allI impI)
    fix a assume "a \<notin> set (take n addrs)"
    then have "a \<notin> set (take (length (take n buf)) (take n addrs))"
      using nbuf by simp
    then show "scatter mem (take n addrs) (take n buf) a = mem a"
      by (rule scatter_outside)
  qed
  have d1: "distinct addrs \<longrightarrow>
      (\<forall>i < n. scatter mem (take n addrs) (take n buf) (addrs ! i) = buf ! i)"
  proof (intro allI impI)
    fix i assume d: "distinct addrs" and i: "i < n"
    have "scatter mem (take n addrs) (take n buf) (take n addrs ! i) = take n buf ! i"
      using d i ntot nbuf by (intro scatter_nth) simp_all
    then show "scatter mem (take n addrs) (take n buf) (addrs ! i) = buf ! i"
      using i by simp
  qed
  have c2: "fst (tcmu_memcpy_from_iovec mem buf len iovec iov_cnt) = n"
    using memcpy_from_loop_count [OF assms(1), of mem buf len 0]
    by (simp add: tcmu_memcpy_from_iovec_def n_def)
  have m2: "snd (snd (tcmu_memcpy_from_iovec mem buf len iovec iov_cnt))
      = take n (map mem addrs) @ drop n buf"
    using memcpy_from_loop_dest [OF assms(1), of 0 len buf mem] assms(2)
    by (simp add: tcmu_memcpy_from_iovec_def n_def addrs_def)
  have l2: "length (take n (map mem addrs) @ drop n buf) = length buf"
    using ntot nbuf by simp
  have r2: "\<forall>i < n. (take n (map mem addrs) @ drop n buf) ! i = mem (addrs ! i)"
    using ntot by (simp add: nth_append)
  have k2: "\<forall>i. n \<le> i \<and> i < length buf \<longrightarrow> (take n (map mem addrs) @ drop n buf) ! i = buf ! i"
    using ntot nbuf by (auto simp: nth_append)
  show ?thesis
    unfolding n_def [symmetric] addrs_def [symmetric] c1 m1 c2 m2
    using o1 d1 l2 r2 k2 by blast
qed

lemma upt_100: "[100 ..< 103] = [100, 101, 102::nat]" "[300 ..< 302] = [300, 301::nat]"
  by (simp_all add: upt_rec)

theorem memcpy_iovec_transfers_witness:
  "(3::nat) \<le> length iov3 \<and> (8::nat) \<le> length [1, 2, 3, 4, 5, 6, 7, 8 :: u8] \<and>
   distinct (iovec_addrs (take 3 iov3)) \<and>
   fst (tcmu_memcpy_into_iovec mem0 iov3 3 [1, 2, 3, 4, 5, 6, 7, 8] 8) = 5 \<and>
   snd (snd (tcmu_memcpy_into_iovec mem0 iov3 3 [1, 2, 3, 4, 5, 6, 7, 8] 8)) 102 = 3 \<and>
   snd (snd (tcmu_memcpy_into_iovec mem0 iov3 3 [1, 2, 3, 4, 5, 6, 7, 8] 8)) 301 = 5 \<and>
   snd (snd (tcmu_memcpy_into_iovec mem0 iov3 3 [1, 2, 3, 4, 5, 6, 7, 8] 8)) 302 = 0 \<and>
   fst (tcmu_memcpy_from_iovec mem1 [1, 2, 3, 4, 5, 6, 7, 8] 8 iov3 3) = 5 \<and>
   snd (snd (tcmu_memcpy_from_iovec mem1 [1, 2, 3, 4, 5, 6, 7, 8] 8 iov3 3)) ! 3 = 44 \<and>
   snd (snd (tcmu_memcpy_from_iovec mem1 [1, 2, 3, 4, 5, 6, 7, 8] 8 iov3 3)) ! 6 = 7"
proof -
  have a: "iovec_addrs (take 3 iov3) = [100, 101, 102, 300, 301]"
    by (simp add: iov3_def iovec_addrs_def upt_100)
  have t: "iovec_total (take 3 iov3) = 5"
    by (simp add: iov3_def iovec_total_def)
  have l: "(3::nat) \<le> length iov3" by (simp add: iov3_def)
  have b: "(8::nat) \<le> length [1, 2, 3, 4, 5, 6, 7, 8 :: u8]" by simp
  have d: "distinct (iovec_addrs (take 3 iov3))" by (simp add: a)
  note w = memcpy_iovec_transfers [OF l b, of mem0, unfolded t a, simplified]
  note r = memcpy_iovec_transfers [OF l b, of mem1, unfolded t a, simplified]
  have w1: "snd (snd (tcmu_memcpy_into_iovec mem0 iov3 3 [1, 2, 3, 4, 5, 6, 7, 8] 8)) =
      mem0(100 := 1, 101 := 2, 102 := 3, 300 := 4, 301 := 5)"
    using w by simp
  have r3: "snd (snd (tcmu_memcpy_from_iovec mem1 [1, 2, 3, 4, 5, 6, 7, 8] 8 iov3 3)) ! 3
      = mem1 ([100, 101, 102, 300, 301] ! 3)"
    using r by simp
  have r6: "snd (snd (tcmu_memcpy_from_iovec mem1 [1, 2, 3, 4, 5, 6, 7, 8] 8 iov3 3)) ! 6
      = [6, 7, 8] ! (6 - Suc (Suc (Suc (Suc (Suc 0)))))"
    using r by simp
  have c1: "fst (tcmu_memcpy_into_iovec mem0 iov3 3 [1, 2, 3, 4, 5, 6, 7, 8] 8) = 5"
    using w by simp
  have c2: "fst (tcmu_memcpy_from_iovec mem1 [1, 2, 3, 4, 5, 6, 7, 8] 8 iov3 3) = 5"
    using r by simp
  show ?thesis
    unfolding w1 r3 r6 c1 c2 using l b d by (simp add: mem0_def mem1_def)
qed

subsection \<open>READ CAPACITY\<close>

lemma be_nat_append: "be_nat (xs @ ys) = be_nat xs * 256 ^ length ys + be_nat ys"
  by (induction xs) (simp_all add: power_add algebra_simps)

lemma be_bytes_Suc: "be_bytes (Suc n) w = ucast (drop_bit (8 * n) w) # be_bytes n w"
  by (simp add: be_bytes_def)

lemma length_be_bytes: "length (be_bytes n w) = n"
  by (simp add: be_bytes_def)

lemma unat_byte_of: "unat (ucast (drop_bit k (w :: 'a::len word)) :: u8) = unat w div 2 ^ k mod 256"
proof -
  have "unat (ucast x :: u8) = unat x mod 256" for x :: "'a word"
    by (simp add: unsigned_ucast_eq take_bit_eq_mod)
  moreover have "unat (drop_bit k w) = unat w div 2 ^ k"
  proof -
    have "unat (drop_bit k w) = drop_bit k (unat w)" by (rule unat_drop_bit_eq)
    also have "\<dots> = unat w div 2 ^ k" by (rule drop_bit_eq_div)
    finally show ?thesis .
  qed
  ultimately show ?thesis by simp
qed

lemma be_bytes_4:
  "be_bytes 4 w = [ucast (drop_bit 24 w), ucast (drop_bit 16 w), ucast (drop_bit 8 w), ucast w]"
  by (simp add: be_bytes_def eval_nat_numeral)

lemma replicate_4: "replicate 4 x = [x, x, x, x]"
  by (simp add: eval_nat_numeral)

lemma be_nat_be_bytes: "be_nat (be_bytes n (w :: 'a::len word)) = unat w mod 256 ^ n"
proof (induction n)
  case 0
  then show ?case by (simp add: be_bytes_def)
next
  case (Suc n)
  have "(2::nat) ^ (8 * n) = (2 ^ 8) ^ n" by (rule power_mult)
  then have "(2::nat) ^ (8 * n) = 256 ^ n" by simp
  then have p: "(2::nat) ^ (n * 8) = 256 ^ n" by (simp only: mult.commute [of n 8])
  have "unat w mod (256 ^ n * 256) = 256 ^ n * (unat w div 256 ^ n mod 256) + unat w mod 256 ^ n"
    by (rule mod_mult2_eq)
  then show ?case
    using Suc by (simp add: be_bytes_Suc length_be_bytes unat_byte_of p mult.commute)
qed

lemma be_nat_be_bytes_32: "be_nat (be_bytes 4 (w :: u32)) = unat w"
proof -
  have "unat w < 2 ^ LENGTH(32)" by (rule unsigned_less)
  then show ?thesis by (simp add: be_nat_be_bytes)
qed

lemma be_nat_be_bytes_64: "be_nat (be_bytes 8 (w :: u64)) = unat w"
proof -
  have "unat w < 2 ^ LENGTH(64)" by (rule unsigned_less)
  then show ?thesis by (simp add: be_nat_be_bytes)
qed

lemma rc10_buf_eq:
  "read_capacity_10_buf num_lbas block_size =
     (if num_lbas < 0x100000000 then be_bytes 4 (ucast (num_lbas - 1) :: u32)
      else replicate 4 0xff) @ be_bytes 4 block_size"
  by (simp add: read_capacity_10_buf_def buf_write_def length_be_bytes Let_def)

lemma rc16_buf_eq:
  "read_capacity_16_buf num_lbas block_size =
     be_bytes 8 (num_lbas - 1) @ be_bytes 4 block_size @ [0, 0, 0xc0, 0] @ replicate 16 0"
proof -
  have r: "replicate 20 (0::u8) = [0, 0, 0, 0] @ replicate 16 0"
    by (simp add: numeral_eq_Suc)
  have l: "length (be_bytes 8 (num_lbas - 1) @ be_bytes 4 block_size) = 12"
    by (simp add: length_be_bytes)
  show ?thesis
    using l
    by (simp add: read_capacity_16_buf_def buf_write_def length_be_bytes Let_def r
          list_update_append nth_append)
qed

lemma last_lba_32:
  assumes "1 \<le> n" "n < 0x100000000"
  shows "unat (ucast ((n::u64) - 1) :: u32) = unat n - 1"
proof -
  have "unat (n - 1) = unat n - 1" using assms(1) by (simp add: unat_sub)
  moreover have "unat n < 4294967296" using assms(2) by (simp add: word_less_nat_alt)
  ultimately show ?thesis by (simp add: unsigned_ucast_eq take_bit_eq_mod)
qed

lemma rc10_example: "read_capacity_10_buf 5 512 = [0, 0, 0, 4, 0, 0, 2, 0]"
  by (simp add: rc10_buf_eq be_bytes_4)

lemma u64_minus_one: "(- 1 :: u64) = 0xffffffffffffffff"
  by simp

lemma ucast_u64_minus_one: "(ucast (- 1 :: u64) :: u32) = 0xffffffff"
  by (simp only: u64_minus_one) simp

lemma rc10_zero: "read_capacity_10_buf 0 bs = [0xff, 0xff, 0xff, 0xff] @ be_bytes 4 bs"
  by (simp add: rc10_buf_eq ucast_u64_minus_one) (simp add: be_bytes_4)
lemma rc10_sat: "0x100000000 \<le> n \<Longrightarrow> read_capacity_10_buf n bs = [0xff, 0xff, 0xff, 0xff] @ be_bytes 4 bs"
  by (simp add: rc10_buf_eq replicate_4 not_less [symmetric])
lemma rc16_zero: "be_nat (take 8 (read_capacity_16_buf 0 bs)) = 2 ^ 64 - 1"
  by (simp add: rc16_buf_eq length_be_bytes be_nat_be_bytes_64 unsigned_minus_1_eq_mask mask_eq_exp_minus_1)

lemma length_rc10: "length (read_capacity_10_buf n bs) = 8"
  by (simp add: rc10_buf_eq length_be_bytes)

text \<open>
  Claim C4. For a block count of at least 1, the READ CAPACITY 10 response is 8 bytes:
  the big-endian value \<open>num_lbas - 1\<close> when \<open>num_lbas < 2^32\<close> and four bytes
  \<open>0xff\<close> when \<open>num_lbas \<ge> 2^32\<close>, then the big-endian 32-bit block size. The
  READ CAPACITY 16 response is 32 bytes: the exact big-endian 64-bit \<open>num_lbas - 1\<close> in
  bytes 0-7, the block size in bytes 8-11, and \<open>0xc0\<close> in byte 14. Both calls return OK
  and copy that response into the iovec. With 5 blocks of 512 bytes READ CAPACITY 10
  gives last LBA 4 and block size 512.
\<close>

theorem read_capacity_layout:
  assumes "1 \<le> num_lbas"
  shows
    "length (read_capacity_10_buf num_lbas block_size) = 8 \<and>
     (num_lbas < 0x100000000 \<longrightarrow>
        be_nat (take 4 (read_capacity_10_buf num_lbas block_size)) = unat num_lbas - 1) \<and>
     (0x100000000 \<le> num_lbas \<longrightarrow>
        take 4 (read_capacity_10_buf num_lbas block_size) = [0xff, 0xff, 0xff, 0xff]) \<and>
     be_nat (drop 4 (read_capacity_10_buf num_lbas block_size)) = unat block_size \<and>
     length (read_capacity_16_buf num_lbas block_size) = 32 \<and>
     be_nat (take 8 (read_capacity_16_buf num_lbas block_size)) = unat num_lbas - 1 \<and>
     be_nat (take 4 (drop 8 (read_capacity_16_buf num_lbas block_size))) = unat block_size \<and>
     read_capacity_16_buf num_lbas block_size ! 14 = 0xc0 \<and>
     tcmu_emulate_read_capacity_10 mem num_lbas block_size cdb iovec iov_cnt =
       (TCMU_STS_OK, snd (tcmu_memcpy_into_iovec mem iovec iov_cnt
                            (read_capacity_10_buf num_lbas block_size) 8)) \<and>
     tcmu_emulate_read_capacity_16 mem num_lbas block_size cdb iovec iov_cnt =
       (TCMU_STS_OK, snd (tcmu_memcpy_into_iovec mem iovec iov_cnt
                            (read_capacity_16_buf num_lbas block_size) 32)) \<and>
     be_nat (take 4 (read_capacity_10_buf 5 512)) = 4 \<and>
     be_nat (drop 4 (read_capacity_10_buf 5 512)) = 512"
proof -
  have a: "num_lbas < 0x100000000 \<longrightarrow>
        be_nat (take 4 (read_capacity_10_buf num_lbas block_size)) = unat num_lbas - 1"
    using assms by (simp add: rc10_buf_eq length_be_bytes be_nat_be_bytes_32 last_lba_32)
  have b: "0x100000000 \<le> num_lbas \<longrightarrow>
        take 4 (read_capacity_10_buf num_lbas block_size) = [0xff, 0xff, 0xff, 0xff]"
    by (simp add: rc10_sat)
  have c: "be_nat (drop 4 (read_capacity_10_buf num_lbas block_size)) = unat block_size"
    by (simp add: rc10_buf_eq length_be_bytes be_nat_be_bytes_32)
  have d: "length (read_capacity_16_buf num_lbas block_size) = 32"
    by (simp add: rc16_buf_eq length_be_bytes)
  have "unat (num_lbas - 1) = unat num_lbas - 1" using assms by (simp add: unat_sub)
  then have e: "be_nat (take 8 (read_capacity_16_buf num_lbas block_size)) = unat num_lbas - 1"
    by (simp add: rc16_buf_eq length_be_bytes be_nat_be_bytes_64)
  have f: "be_nat (take 4 (drop 8 (read_capacity_16_buf num_lbas block_size))) = unat block_size"
    by (simp add: rc16_buf_eq length_be_bytes be_nat_be_bytes_32)
  have g: "read_capacity_16_buf num_lbas block_size ! 14 = 0xc0"
    by (simp add: rc16_buf_eq nth_append length_be_bytes)
  have h: "be_nat (take 4 (read_capacity_10_buf 5 512)) = 4"
       "be_nat (drop 4 (read_capacity_10_buf 5 512)) = 512"
    by (simp_all add: rc10_example)
  show ?thesis
    using a b c d e f g h
    by (simp add: length_rc10 tcmu_emulate_read_capacity_10_def tcmu_emulate_read_capacity_16_def)
qed

theorem read_capacity_layout_witness:
  "(1::u64) \<le> 5 \<and> (5::u64) < 0x100000000 \<and>
   be_nat (take 4 (read_capacity_10_buf 5 512)) = 4 \<and>
   be_nat (drop 4 (read_capacity_10_buf 5 512)) = 512 \<and>
   be_nat (take 8 (read_capacity_16_buf 5 512)) = 4 \<and>
   read_capacity_16_buf 5 512 ! 14 = 0xc0 \<and>
   (1::u64) \<le> 0x200000000 \<and> (0x100000000::u64) \<le> 0x200000000 \<and>
   take 4 (read_capacity_10_buf 0x200000000 512) = [0xff, 0xff, 0xff, 0xff] \<and>
   be_nat (take 8 (read_capacity_16_buf 0x200000000 512)) = 8589934591"
  using read_capacity_layout [of 5 512] read_capacity_layout [of "0x200000000" 512]
  by simp

text \<open>
  Claim C10. With a block count of 0 the subtraction wraps: READ CAPACITY 10 answers
  last LBA \<open>0xffffffff\<close>, the very response it gives for a count of \<open>2^32\<close>, and
  READ CAPACITY 16 answers last LBA \<open>2^64 - 1\<close>; both return OK and copy the response
  into the iovec as for any other count.
\<close>

theorem read_capacity_zero_wraps:
  "take 4 (read_capacity_10_buf 0 block_size) = [0xff, 0xff, 0xff, 0xff] \<and>
   be_nat (take 4 (read_capacity_10_buf 0 block_size)) = 2 ^ 32 - 1 \<and>
   read_capacity_10_buf 0 block_size = read_capacity_10_buf 0x100000000 block_size \<and>
   be_nat (take 8 (read_capacity_16_buf 0 block_size)) = 2 ^ 64 - 1 \<and>
   fst (tcmu_emulate_read_capacity_10 mem 0 block_size cdb iovec iov_cnt) = TCMU_STS_OK \<and>
   fst (tcmu_emulate_read_capacity_16 mem 0 block_size cdb iovec iov_cnt) = TCMU_STS_OK \<and>
   snd (tcmu_emulate_read_capacity_10 mem 0 block_size cdb iovec iov_cnt) =
     snd (tcmu_memcpy_into_iovec mem iovec iov_cnt (read_capacity_10_buf 0 block_size) 8) \<and>
   snd (tcmu_emulate_read_capacity_16 mem 0 block_size cdb iovec iov_cnt) =
     snd (tcmu_memcpy_into_iovec mem iovec iov_cnt (read_capacity_16_buf 0 block_size) 32)"
proof -
  have s: "read_capacity_10_buf 0x100000000 block_size = [0xff, 0xff, 0xff, 0xff] @ be_bytes 4 block_size"
    by (rule rc10_sat) simp
  show ?thesis
    by (simp add: rc10_zero s rc16_zero tcmu_emulate_read_capacity_10_def
          tcmu_emulate_read_capacity_16_def)
qed

subsection \<open>MODE SENSE\<close>







































subsection \<open>MODE SELECT\<close>

lemma registered_cases:
  "h \<in> set modesense_handlers \<Longrightarrow>
   h = \<lparr>page = 0x1, subpage = 0, get = handle_rwrecovery_page\<rparr> \<or>
   h = \<lparr>page = 0x8, subpage = 0, get = handle_cache_page\<rparr> \<or>
   h = \<lparr>page = 0xa, subpage = 0, get = handle_control_page\<rparr>"
  by (simp add: modesense_handlers_def)

lemma page_lengths:
  "length (handle_rwrecovery_page dev) = 12"
  "length (handle_cache_page dev) = 20"
  "length (handle_control_page dev) = 12"
  by (simp_all add: handle_rwrecovery_page_def handle_cache_page_def handle_control_page_def
        Let_def)

lemma registered_length:
  "h \<in> set modesense_handlers \<Longrightarrow> 0 < length (get h dev) \<and> length (get h dev) \<le> 20"
proof -
  assume "h \<in> set modesense_handlers"
  then have "length (get h dev) = 12 \<or> length (get h dev) = 20"
    by (auto dest!: registered_cases simp: page_lengths)
  then show ?thesis by auto
qed

lemma handler_get_select:
  assumes "length (get h dev) \<le> 20" "hdr_len \<le> 8"
  shows "handler_get h dev buf (Some hdr_len) (512 - hdr_len) =
           (buf_write buf hdr_len (get h dev), length (get h dev))"
proof -
  have "length (get h dev) < 512 - hdr_len" using assms by arith
  then show ?thesis by (simp add: handler_get_def copy_to_response_buf_def Let_def)
qed

lemma select_lookup_registered:
  assumes "h \<in> set modesense_handlers" "hdr_len \<le> 8"
  shows "mode_select_lookup dev modesense_handlers (page h) (subpage h) select_ten hdr_len buf =
           Inr (buf_write buf hdr_len (get h dev), length (get h dev), True)"
proof -
  note l = registered_length [of _ dev]
  have g: "handler_get k dev buf (Some hdr_len) (512 - hdr_len) =
           (buf_write buf hdr_len (get k dev), length (get k dev))"
    if "k \<in> set modesense_handlers" for k
    using handler_get_select [of k dev hdr_len buf] l [OF that] assms(2) by simp
  have g1: "handler_get \<lparr>page = 0x1, subpage = 0, get = handle_rwrecovery_page\<rparr> dev buf (Some hdr_len) (512 - hdr_len)
      = (buf_write buf hdr_len (handle_rwrecovery_page dev), length (handle_rwrecovery_page dev))"
    using g [of "\<lparr>page = 0x1, subpage = 0, get = handle_rwrecovery_page\<rparr>"]
    by (simp add: modesense_handlers_def)
  have g2: "handler_get \<lparr>page = 0x8, subpage = 0, get = handle_cache_page\<rparr> dev buf (Some hdr_len) (512 - hdr_len)
      = (buf_write buf hdr_len (handle_cache_page dev), length (handle_cache_page dev))"
    using g [of "\<lparr>page = 0x8, subpage = 0, get = handle_cache_page\<rparr>"]
    by (simp add: modesense_handlers_def)
  have g3: "handler_get \<lparr>page = 0xa, subpage = 0, get = handle_control_page\<rparr> dev buf (Some hdr_len) (512 - hdr_len)
      = (buf_write buf hdr_len (handle_control_page dev), length (handle_control_page dev))"
    using g [of "\<lparr>page = 0xa, subpage = 0, get = handle_control_page\<rparr>"]
    by (simp add: modesense_handlers_def)
  have l1: "0 < length (handle_rwrecovery_page dev) \<and> length (handle_rwrecovery_page dev) \<le> 20"
    using l [of "\<lparr>page = 0x1, subpage = 0, get = handle_rwrecovery_page\<rparr>"]
    by (simp add: modesense_handlers_def)
  have l2: "0 < length (handle_cache_page dev) \<and> length (handle_cache_page dev) \<le> 20"
    using l [of "\<lparr>page = 0x8, subpage = 0, get = handle_cache_page\<rparr>"]
    by (simp add: modesense_handlers_def)
  have l3: "0 < length (handle_control_page dev) \<and> length (handle_control_page dev) \<le> 20"
    using l [of "\<lparr>page = 0xa, subpage = 0, get = handle_control_page\<rparr>"]
    by (simp add: modesense_handlers_def)
  from registered_cases [OF assms(1)] show ?thesis
  proof (elim disjE)
    assume "h = \<lparr>page = 0x1, subpage = 0, get = handle_rwrecovery_page\<rparr>"
    then show ?thesis using l1 assms(2) by (simp add: modesense_handlers_def g1)
  next
    assume "h = \<lparr>page = 0x8, subpage = 0, get = handle_cache_page\<rparr>"
    then show ?thesis using l2 assms(2) by (simp add: modesense_handlers_def g2)
  next
    assume "h = \<lparr>page = 0xa, subpage = 0, get = handle_control_page\<rparr>"
    then show ?thesis using l3 assms(2) by (simp add: modesense_handlers_def g3)
  qed
qed

lemma take_drop_buf_write:
  "off + length bs \<le> length buf \<Longrightarrow> take (length bs) (drop off (buf_write buf off bs)) = bs"
  by (simp add: buf_write_def)

lemma from_iovec_short:
  assumes "iov_cnt \<le> length iovec" "iovec_total (take iov_cnt iovec) < 512" "length in_buf_init = 512"
  shows "fst (tcmu_memcpy_from_iovec mem in_buf_init 512 iovec iov_cnt) = iovec_total (take iov_cnt iovec)"
    and "snd (snd (tcmu_memcpy_from_iovec mem in_buf_init 512 iovec iov_cnt)) =
           iovec_bytes mem (take iov_cnt iovec) @ drop (iovec_total (take iov_cnt iovec)) in_buf_init"
proof -
  have m: "min 512 (iovec_total (take iov_cnt iovec)) = iovec_total (take iov_cnt iovec)"
    using assms(2) by simp
  show "fst (tcmu_memcpy_from_iovec mem in_buf_init 512 iovec iov_cnt) = iovec_total (take iov_cnt iovec)"
    using memcpy_from_loop_count [OF assms(1), of mem in_buf_init 512 0] m
    by (simp add: tcmu_memcpy_from_iovec_def)
  have "0 + 512 \<le> length in_buf_init" using assms(3) by simp
  from memcpy_from_loop_dest [OF assms(1) this, of mem]
  show "snd (snd (tcmu_memcpy_from_iovec mem in_buf_init 512 iovec iov_cnt)) =
           iovec_bytes mem (take iov_cnt iovec) @ drop (iovec_total (take iov_cnt iovec)) in_buf_init"
    by (simp add: tcmu_memcpy_from_iovec_def m iovec_bytes_def length_iovec_addrs)
qed

text \<open>
  Claim C3, as amended. For a MODE SELECT CDB with the page-format bit set, the
  save-pages bit clear and a registered (page, subpage), a nonzero allocation length, and
  a parameter list of fewer than 512 bytes: an allocation length below header plus body
  gives invalid-parameter-list-length; otherwise, when the parameter list reaches past the
  page, the call returns OK if and only if the bytes of the list at the page's position
  are the currently generated body, and invalid-parameter-list if not, in particular
  when any single byte differs.
\<close>

theorem mode_select_identical_only:
  assumes "h \<in> set modesense_handlers"
    and "cdb 2 AND 0x3f = page h" and "cdb 3 = subpage h"
    and "cdb 1 AND 0x10 \<noteq> 0" and "cdb 1 AND 0x01 = 0"
    and "tcmu_get_xfer_length cdb = Some alloc_len" and "alloc_len \<noteq> 0"
    and "iov_cnt \<le> length iovec" and "iovec_total (take iov_cnt iovec) < 512"
    and "length in_buf_init = 512"
  shows
    "\<exists>sts iovec'.
       tcmu_emulate_mode_select in_buf_init mem dev cdb iovec iov_cnt = Some (sts, iovec') \<and>
       (alloc_len < msel_hdr cdb + length (get h dev) \<longrightarrow>
          sts = TCMU_STS_INVALID_PARAM_LIST_LEN) \<and>
       (msel_hdr cdb + length (get h dev) \<le> alloc_len \<and>
        msel_hdr cdb + length (get h dev) \<le> length (iovec_bytes mem (take iov_cnt iovec)) \<longrightarrow>
          (sts = TCMU_STS_OK) =
            (take (length (get h dev)) (drop (msel_hdr cdb) (iovec_bytes mem (take iov_cnt iovec)))
               = get h dev) \<and>
          (sts \<noteq> TCMU_STS_OK \<longrightarrow> sts = TCMU_STS_INVALID_PARAM_LIST) \<and>
          ((\<exists>i < length (get h dev).
               iovec_bytes mem (take iov_cnt iovec) ! (msel_hdr cdb + i) \<noteq> get h dev ! i) \<longrightarrow>
             sts = TCMU_STS_INVALID_PARAM_LIST))"
proof -
  define hdr where "hdr = msel_hdr cdb"
  define body where "body = get h dev"
  define P where "P = iovec_bytes mem (take iov_cnt iovec)"
  define r where "r = tcmu_memcpy_from_iovec mem in_buf_init 512 iovec iov_cnt"
  have h8: "hdr \<le> 8" by (simp add: hdr_def msel_hdr_def)
  have hd: "(if cdb 0 = MODE_SELECT_10 then 8 else 4) = hdr" by (simp add: hdr_def msel_hdr_def)
  note bl = registered_length [OF assms(1), of dev, folded body_def]
  have c: "fst r = iovec_total (take iov_cnt iovec)"
    and ib: "snd (snd r) = P @ drop (iovec_total (take iov_cnt iovec)) in_buf_init"
    unfolding r_def P_def using from_iovec_short [OF assms(8,9,10)] by simp_all
  have lk: "mode_select_lookup dev modesense_handlers (cdb 2 AND 0x3f) (cdb 3)
        (cdb 0 = MODE_SELECT_10) hdr (replicate 512 0)
      = Inr (buf_write (replicate 512 0) hdr body, length body, True)"
    using select_lookup_registered [OF assms(1) h8, of dev "cdb 0 = MODE_SELECT_10" "replicate 512 0"]
    by (simp add: assms(2,3) body_def)
  have tb: "take (length body) (drop hdr (buf_write (replicate 512 0) hdr body)) = body"
    using bl h8 by (intro take_drop_buf_write) simp
  define sts where "sts =
     (if alloc_len < hdr + length body then TCMU_STS_INVALID_PARAM_LIST_LEN
      else if body \<noteq> take (length body) (drop hdr (snd (snd r))) then TCMU_STS_INVALID_PARAM_LIST
      else TCMU_STS_OK)"
  have run: "tcmu_emulate_mode_select in_buf_init mem dev cdb iovec iov_cnt = Some (sts, fst (snd r))"
    using assms(4,5,6,7,9) c lk tb
    by (simp add: tcmu_emulate_mode_select_def tcmu_emulate_mode_select_with_def Let_def hd
          r_def [symmetric] case_prod_beta sts_def)
  have cover: "take (length body) (drop hdr (snd (snd r))) = take (length body) (drop hdr P)"
    if "hdr + length body \<le> length P"
    using that by (simp add: ib)
  have diff: "take (length body) (drop hdr P) \<noteq> body"
    if "hdr + length body \<le> length P" "\<exists>i < length body. P ! (hdr + i) \<noteq> body ! i"
  proof
    assume e: "take (length body) (drop hdr P) = body"
    from that(2) obtain i where i: "i < length body" "P ! (hdr + i) \<noteq> body ! i" by blast
    have "take (length body) (drop hdr P) ! i = P ! (hdr + i)"
      using i(1) that(1) by simp
    with e i(2) show False by simp
  qed
  show ?thesis
    unfolding hdr_def [symmetric] body_def [symmetric] P_def [symmetric]
    apply (intro exI [of _ sts] exI [of _ "fst (snd r)"] conjI impI run)
    subgoal by (simp add: sts_def)
    subgoal using cover by (auto simp: sts_def)
    subgoal using cover by (auto simp: sts_def)
    subgoal using cover diff by (auto simp: sts_def)
    done
qed

lemma cdb_sel6_facts:
  "cdb_sel6 a 2 AND 0x3f = page h_rw" "cdb_sel6 a 3 = subpage h_rw"
  "cdb_sel6 a 1 AND 0x10 \<noteq> 0" "cdb_sel6 a 1 AND 0x01 = 0"
  "tcmu_get_xfer_length (cdb_sel6 a) = Some (unat a)" "msel_hdr (cdb_sel6 a) = 4"
  "h_rw \<in> set modesense_handlers" "get h_rw dev = handle_rwrecovery_page dev"
  by (simp_all add: cdb_sel6_def cdb_of_def h_rw_def tcmu_get_xfer_length_def
        tcmu_get_cdb_length_def msel_hdr_def MODE_SELECT_10_def modesense_handlers_def)

lemma cdb_sel10_facts:
  "cdb_sel10_512 2 AND 0x3f = page h_rw" "cdb_sel10_512 3 = subpage h_rw"
  "cdb_sel10_512 1 AND 0x10 \<noteq> 0" "cdb_sel10_512 1 AND 0x01 = 0"
  "tcmu_get_xfer_length cdb_sel10_512 = Some 512" "msel_hdr cdb_sel10_512 = 8"
  "cdb_sel10_512 0 = MODE_SELECT_10"
  by (simp_all add: cdb_sel10_512_def cdb_of_def h_rw_def tcmu_get_xfer_length_def
        tcmu_get_cdb_length_def msel_hdr_def MODE_SELECT_10_def)

lemma rw_page: "handle_rwrecovery_page dev = [1, 0xa, 0, 0, 0, 0, 0, 0, 0, 0, 0, 0]"
  by (simp add: handle_rwrecovery_page_def eval_nat_numeral)

lemma upt_page: "[4 ..< 16] = [4, 5, 6, 7, 8, 9, 10, 11, 12, 13, 14, 15 :: nat]"
  "[8 ..< 20] = [8, 9, 10, 11, 12, 13, 14, 15, 16, 17, 18, 19 :: nat]"
  by (simp_all add: upt_rec)

lemma iov16_bytes:
  "iovec_total (take 1 iov16) = 16" "length (iovec_bytes mem (take 1 iov16)) = 16"
  "take 12 (drop 4 (iovec_bytes mem (take 1 iov16))) = map mem [4 ..< 16]"
  by (simp_all add: iov16_def iovec_total_def iovec_bytes_def iovec_addrs_def take_map drop_map)

lemma iov512_bytes:
  "iovec_total (take 1 iov512) = 512"
  "take 12 (drop 8 (iovec_bytes mem (take 1 iov512))) = map mem [8 ..< 20]"
  by (simp_all add: iov512_def iovec_total_def iovec_bytes_def iovec_addrs_def take_map drop_map)

lemmas cdb_sel_facts = cdb_sel6_facts cdb_sel6_facts [unfolded One_nat_def]
  cdb_sel10_facts cdb_sel10_facts [unfolded One_nat_def]

lemmas iov_bytes = iov16_bytes iov16_bytes [unfolded One_nat_def]
  iov512_bytes iov512_bytes [unfolded One_nat_def]

theorem mode_select_identical_only_witness:
  "h_rw \<in> set modesense_handlers \<and>
   cdb_sel6 16 2 AND 0x3f = page h_rw \<and> cdb_sel6 16 3 = subpage h_rw \<and>
   cdb_sel6 16 1 AND 0x10 \<noteq> 0 \<and> cdb_sel6 16 1 AND 0x01 = 0 \<and>
   tcmu_get_xfer_length (cdb_sel6 16) = Some 16 \<and> (16::nat) \<noteq> 0 \<and>
   (1::nat) \<le> length iov16 \<and> iovec_total (take 1 iov16) < 512 \<and>
   length (replicate 512 (0xcc::u8)) = 512 \<and>
   msel_hdr (cdb_sel6 16) + length (get h_rw tdev0) \<le> 16 \<and>
   (\<exists>iovec'. tcmu_emulate_mode_select (replicate 512 0xcc) (mem_rw 4) tdev0 (cdb_sel6 16) iov16 1
       = Some (TCMU_STS_OK, iovec')) \<and>
   (\<exists>iovec'. tcmu_emulate_mode_select (replicate 512 0xcc) (mem_rw 5) tdev0 (cdb_sel6 16) iov16 1
       = Some (TCMU_STS_INVALID_PARAM_LIST, iovec')) \<and>
   (\<exists>iovec'. tcmu_emulate_mode_select (replicate 512 0xcc) (mem_rw 4) tdev0 (cdb_sel6 15) iov16 1
       = Some (TCMU_STS_INVALID_PARAM_LIST_LEN, iovec'))"
proof -
  have l: "(1::nat) \<le> length iov16" by (simp add: iov16_def)
  have t: "iovec_total (take 1 iov16) < 512" by (simp add: iov_bytes)
  have b: "length (replicate 512 (0xcc::u8)) = 512" by simp
  have p4: "take 12 (drop 4 (iovec_bytes (mem_rw 4) (take 1 iov16))) = handle_rwrecovery_page tdev0"
    by (simp add: iov_bytes upt_page rw_page mem_rw_def)
  have p5: "take 12 (drop 4 (iovec_bytes (mem_rw 5) (take 1 iov16))) \<noteq> handle_rwrecovery_page tdev0"
    by (simp add: iov_bytes upt_page rw_page mem_rw_def)
  note w1 = mode_select_identical_only [where h = h_rw and cdb = "cdb_sel6 16" and alloc_len = 16
      and iov_cnt = 1 and iovec = iov16 and in_buf_init = "replicate 512 0xcc" and mem = "mem_rw 4"
      and dev = tdev0, OF cdb_sel6_facts(7) cdb_sel6_facts(1,2,3,4) _ _ l t b]
  note w2 = mode_select_identical_only [where h = h_rw and cdb = "cdb_sel6 16" and alloc_len = 16
      and iov_cnt = 1 and iovec = iov16 and in_buf_init = "replicate 512 0xcc" and mem = "mem_rw 5"
      and dev = tdev0, OF cdb_sel6_facts(7) cdb_sel6_facts(1,2,3,4) _ _ l t b]
  note w3 = mode_select_identical_only [where h = h_rw and cdb = "cdb_sel6 15" and alloc_len = 15
      and iov_cnt = 1 and iovec = iov16 and in_buf_init = "replicate 512 0xcc" and mem = "mem_rw 4"
      and dev = tdev0, OF cdb_sel6_facts(7) cdb_sel6_facts(1,2,3,4) _ _ l t b]
  have e1: "\<exists>iovec'. tcmu_emulate_mode_select (replicate 512 0xcc) (mem_rw 4) tdev0 (cdb_sel6 16) iov16 1
       = Some (TCMU_STS_OK, iovec')"
    using w1 p4 by (auto simp: cdb_sel6_facts iov_bytes page_lengths)
  have e2: "\<exists>iovec'. tcmu_emulate_mode_select (replicate 512 0xcc) (mem_rw 5) tdev0 (cdb_sel6 16) iov16 1
       = Some (TCMU_STS_INVALID_PARAM_LIST, iovec')"
    using w2 p5 by (auto simp: cdb_sel6_facts iov_bytes page_lengths)
  have e3: "\<exists>iovec'. tcmu_emulate_mode_select (replicate 512 0xcc) (mem_rw 4) tdev0 (cdb_sel6 15) iov16 1
       = Some (TCMU_STS_INVALID_PARAM_LIST_LEN, iovec')"
    using w3 by (auto simp: cdb_sel6_facts iov_bytes page_lengths)
  show ?thesis
    using e1 e2 e3 l t by (simp add: cdb_sel_facts page_lengths)
qed

text \<open>
  Claim C3 as stated fails twice. An allocation length of zero, smaller than header plus
  body, yields OK and not invalid-parameter-list-length. A parameter list of 512 bytes
  whose bytes at the page's position are identical to the generated body, with a
  sufficient allocation length, yields invalid-parameter-list-length and not OK.
\<close>

theorem mode_select_ok_not_iff_identical:
  "tcmu_get_xfer_length (cdb_sel6 0) = Some 0 \<and>
   0 < msel_hdr (cdb_sel6 0) + length (get h_rw tdev0) \<and>
   tcmu_emulate_mode_select (replicate 512 0xcc) (mem_rw 5) tdev0 (cdb_sel6 0) iov16 1
     = Some (TCMU_STS_OK, iov16) \<and>
   tcmu_get_xfer_length cdb_sel10_512 = Some 512 \<and>
   msel_hdr cdb_sel10_512 + length (get h_rw tdev0) \<le> 512 \<and>
   take (length (get h_rw tdev0)) (drop (msel_hdr cdb_sel10_512)
      (iovec_bytes (mem_rw 8) (take 1 iov512))) = get h_rw tdev0 \<and>
   (\<exists>iovec'. tcmu_emulate_mode_select (replicate 512 0xcc) (mem_rw 8) tdev0 cdb_sel10_512 iov512 1
       = Some (TCMU_STS_INVALID_PARAM_LIST_LEN, iovec'))"
proof -
  have l: "(1::nat) \<le> length iov512" by (simp add: iov512_def)
  have c: "fst (tcmu_memcpy_from_iovec (mem_rw 8) (replicate 512 0xcc) 512 iov512 1) = 512"
    using memcpy_from_loop_count [OF l, of "mem_rw 8" "replicate 512 0xcc" 512 0]
    by (simp add: tcmu_memcpy_from_iovec_def iov_bytes)
  have a: "tcmu_emulate_mode_select (replicate 512 0xcc) (mem_rw 5) tdev0 (cdb_sel6 0) iov16 1
     = Some (TCMU_STS_OK, iov16)"
    by (simp add: tcmu_emulate_mode_select_def tcmu_emulate_mode_select_with_def cdb_sel6_facts)
  have p: "take 12 (drop 8 (iovec_bytes (mem_rw 8) (take 1 iov512))) = handle_rwrecovery_page tdev0"
    by (simp add: iov_bytes upt_page rw_page mem_rw_def)
  have b: "\<exists>iovec'. tcmu_emulate_mode_select (replicate 512 0xcc) (mem_rw 8) tdev0 cdb_sel10_512 iov512 1
       = Some (TCMU_STS_INVALID_PARAM_LIST_LEN, iovec')"
    using c
    by (simp add: tcmu_emulate_mode_select_def tcmu_emulate_mode_select_with_def cdb_sel10_facts
          Let_def case_prod_beta)
  show ?thesis
    using a b p by (simp add: cdb_sel_facts page_lengths)
qed

subsection \<open>EVPD page 0x83\<close>

lemma pad_dvd:
  fixes M len :: nat
  assumes big: "4 dvd M" and lt: "len < M"
  shows "4 dvd (if ((M - len) mod M) mod 4 \<noteq> 0
                then (len + ((M - len) mod M) mod 4) mod M else len)"
proof -
  define padding where "padding = ((M - len) mod M) mod 4"
  have p4: "padding = (M - len) mod 4"
    unfolding padding_def using big by (rule mod_mod_cancel)
  have "len + (M - len) = M" using lt by simp
  then have sum: "(len + (M - len)) mod 4 = 0" using big by (simp add: dvd_eq_mod_eq_0)
  have "(len + padding) mod 4 = (len + (M - len)) mod 4"
    unfolding p4 by (rule mod_add_right_eq)
  then have s4: "4 dvd len + padding" using sum by (simp add: dvd_eq_mod_eq_0)
  have m4: "((len + padding) mod M) mod 4 = (len + padding) mod 4"
    using big by (rule mod_mod_cancel)
  show ?thesis
  proof (cases "padding = 0")
    case True
    then show ?thesis using s4 by (simp add: padding_def [symmetric])
  next
    case False
    then show ?thesis using s4 m4 by (simp add: padding_def [symmetric] dvd_eq_mod_eq_0)
  qed
qed

lemma designator_len_dvd: "4 dvd designator_len n"
proof -
  define M :: nat where "M = 2 ^ 64"
  have big: "4 dvd M"
  proof -
    have "M = 4 * 2 ^ 62" by (simp add: M_def)
    then show ?thesis by (rule dvdI)
  qed
  have "0 < M" by (simp add: M_def)
  then have lt: "(n + 1) mod M < M" by (rule mod_less_divisor)
  define x where "x =
     (if ((M - (n + 1) mod M) mod M) mod 4 \<noteq> 0
      then ((n + 1) mod M + ((M - (n + 1) mod M) mod M) mod 4) mod M else (n + 1) mod M)"
  have x4: "4 dvd x" unfolding x_def by (rule pad_dvd [OF big lt])
  have d: "designator_len n = (if x > 256 then 256 else x)"
    unfolding designator_len_def Let_def x_def M_def by (rule refl)
  show ?thesis
  proof (cases "x > 256")
    case True
    then show ?thesis by (simp add: d)
  next
    case False
    then show ?thesis using x4 by (simp add: d)
  qed
qed

lemma designator_len_le: "designator_len n \<le> 256"
  by (simp add: designator_len_def Let_def)

lemmas evpd_unfold = and_then_def data_store_def c_snprintf_def Let_def size_sub_def

lemma t10_sample:
  "\<exists>d. evpd83_t10 [0x61, 0x62] evpd83_init = Inr (d, 15)"
  by (simp add: evpd83_t10_def evpd83_init_def evpd_unfold mem_write_def)

lemma naa_sample:
  "\<exists>d'. evpd83_naa [0x61, 0x62] (d, 15) = Inr (d', 35)"
  by (simp add: evpd83_naa_def evpd_unfold char_to_hex_def)

lemma vendor_sample:
  "\<exists>d'. evpd83_vendor [0x63] (d, 35) = Inr (d', 41)"
  by (simp add: evpd83_vendor_def evpd_unfold mem_write_def)

lemma rel_port_ok:
  "used \<le> 500 \<Longrightarrow> \<exists>d'. evpd83_rel_port port (d, used) = Inr (d', used + 8)"
  by (simp add: evpd83_rel_port_def evpd_unfold)

lemma tpg_ok:
  "used \<le> 500 \<Longrightarrow> \<exists>d'. evpd83_tpg port (d, used) = Inr (d', used + 8)"
  by (simp add: evpd83_tpg_def evpd_unfold)


lemma tdev0_facts:
  "dev_wwn tdev0 = Some [0x61, 0x62]" "dev_cfgstring tdev0 = [0x63]"
  by (simp_all add: tdev0_def)

lemma five_sample:
  "\<exists>d. evpd83_five tdev0 [0x61, 0x62] port = Inr (d, 57)"
proof -
  obtain d1 where s1: "evpd83_t10 [0x61, 0x62] evpd83_init = Inr (d1, 15)"
    using t10_sample by blast
  obtain d2 where s2: "evpd83_naa [0x61, 0x62] (d1, 15) = Inr (d2, 35)"
    using naa_sample by blast
  obtain d3 where s3: "evpd83_vendor [0x63] (d2, 35) = Inr (d3, 41)"
    using vendor_sample by blast
  obtain d4 where s4: "evpd83_rel_port port (d3, 41) = Inr (d4, 41 + 8)"
    using rel_port_ok [of 41 port d3] by auto
  obtain d5 where s5: "evpd83_tpg port (d4, 49) = Inr (d5, 49 + 8)"
    using tpg_ok [of 49 port d4] by auto
  show ?thesis using s1 s2 s3 s4 s5
    by (simp add: evpd83_five_def evpd83_three_def and_then_def tdev0_facts)
qed

lemma designator_len_samples:
  "designator_len 12 = 16" "designator_len 3 = 4" "designator_len 232 = 236"
  by (simp_all add: designator_len_def Let_def)

lemma sample_lengths:
  "length (scsi_name_string port0) = 12" "length (port_wwn port0) = 3"
  "length (scsi_name_string port_iqn) = 232" "length (port_wwn port_iqn) = 223"
  by (simp_all add: scsi_name_string_def fmt_04x_def port0_def port_iqn_def)

lemma scsi_name_iqn:
  "\<exists>d'. evpd83_scsi_name port_iqn (d, 57) = Inr (d', 297) \<and> d' 64 = 236"
  by (simp add: evpd83_scsi_name_def evpd_unfold sample_lengths designator_len_samples
        mem_write_def)

lemma snprintf_iqn:
  "size_sub (size_sub 512 297) 4 = 211"
  "c_snprintf d 305 211 (port_wwn port_iqn) = Inl OUT_OF_BOUNDS"
  by (simp_all add: evpd_unfold sample_lengths)

lemma target_dev_iqn:
  "evpd83_target_dev port_iqn (d, 297) = Inl OUT_OF_BOUNDS"
  by (simp add: evpd83_target_dev_def evpd_unfold sample_lengths)


lemma scsi_name_port0:
  "\<exists>d'. evpd83_scsi_name port0 (d, 57) = Inr (d', 77) \<and> d' 64 = 16"
  by (simp add: evpd83_scsi_name_def evpd_unfold sample_lengths designator_len_samples
        mem_write_def)

lemma target_dev_port0:
  "\<exists>d'. evpd83_target_dev port0 (d, 77) = Inr (d', 85) \<and> d' 64 = d 64 \<and> d' 84 = 4"
  by (simp add: evpd83_target_dev_def evpd_unfold sample_lengths designator_len_samples
        mem_write_def)

lemma finish_sample:
  "used \<le> 600 \<Longrightarrow>
   \<exists>d'. evpd83_finish (d, used) = Inr (d', used) \<and> d' 64 = d 64 \<and> d' 84 = d 84"
  by (simp add: evpd83_finish_def evpd_unfold mem_write_def length_be_bytes)

lemma data_port0:
  "\<exists>data. evpd83_data tdev0 [0x61, 0x62] (Some port0) = Inr (data, 85) \<and>
          data 64 = 16 \<and> data 84 = 4"
proof -
  obtain d5 where s5: "evpd83_five tdev0 [0x61, 0x62] port0 = Inr (d5, 57)"
    using five_sample by blast
  obtain d6 where s6: "evpd83_scsi_name port0 (d5, 57) = Inr (d6, 77)" "d6 64 = 16"
    using scsi_name_port0 by blast
  obtain d7 where s7: "evpd83_target_dev port0 (d6, 77) = Inr (d7, 85)" "d7 64 = d6 64" "d7 84 = 4"
    using target_dev_port0 by blast
  obtain d8 where s8: "evpd83_finish (d7, 85) = Inr (d8, 85)" "d8 64 = d7 64" "d8 84 = d7 84"
    using finish_sample [of 85 d7] by auto
  show ?thesis using s5 s6 s7 s8
    by (simp add: evpd83_data_def and_then_def)
qed

lemma iov3_total: "iovec_total (take 3 iov3) = 5"
  by (simp add: iov3_def iovec_total_def)

lemma and_then_Inr: "(and_then r f = Inr y) = (\<exists>x. r = Inr x \<and> f x = Inr y)"
  by (cases r) (simp_all add: and_then_def)

lemma data_store_Inr:
  "(data_store data off bs = Inr d) = (off + length bs \<le> 512 \<and> d = mem_write data off bs)"
  by (auto simp: data_store_def)

lemma mem_write_below: "a < dst \<Longrightarrow> mem_write mem dst bs a = mem a"
  by (simp add: mem_write_def)

lemma mem_write_above: "dst + length bs \<le> a \<Longrightarrow> mem_write mem dst bs a = mem a"
  by (simp add: mem_write_def)

lemma mem_write_one: "mem_write mem dst [b] dst = b"
  by (simp add: mem_write_def)

lemma c_snprintf_Inr:
  assumes "c_snprintf data dst sz s = Inr (d, n)" and "sz \<noteq> 0"
  shows "n = length s" and "dst + min (length s) (sz - 1) + 1 \<le> 512"
    and "\<And>a. a < dst \<Longrightarrow> d a = data a"
  using assms
  by (auto simp: c_snprintf_def and_then_Inr data_store_Inr mem_write_below min_def
           split: if_splits)

lemma name_stage:
  assumes "and_then (data_store data (4 + used) [bx, by]) (\<lambda>d1.
           and_then (c_snprintf d1 (4 + used + 4) (size_sub (size_sub 512 used) 4) s) (\<lambda>(d2, n).
           and_then (data_store d2 (4 + used + 3) [of_nat (designator_len n)]) (\<lambda>d3.
           Inr (d3, used + (designator_len n + 4))))) = Inr (d, u)"
  shows "u = used + (designator_len (length s) + 4)"
    and "d (4 + used + 3) = of_nat (designator_len (length s))"
    and "used + 9 + length s \<le> 512"
    and "\<And>a. a < 4 + used \<Longrightarrow> d a = data a"
proof -
  from assms obtain d1 d2 n where
    s1: "data_store data (4 + used) [bx, by] = Inr d1"
    and s2: "c_snprintf d1 (4 + used + 4) (size_sub (size_sub 512 used) 4) s = Inr (d2, n)"
    and s3: "data_store d2 (4 + used + 3) [of_nat (designator_len n)] = Inr d"
    and u: "u = used + (designator_len n + 4)"
    by (auto simp: and_then_Inr)
  from s1 have b: "used \<le> 506" and d1: "d1 = mem_write data (4 + used) [bx, by]"
    by (simp_all add: data_store_Inr)
  have sz: "size_sub (size_sub 512 used) 4 = 508 - used" using b by (simp add: size_sub_def)
  have nz: "size_sub (size_sub 512 used) 4 \<noteq> 0" using b by (simp add: sz)
  note c = c_snprintf_Inr [OF s2 nz]
  show "u = used + (designator_len (length s) + 4)" using u c(1) by simp
  from s3 have d: "d = mem_write d2 (4 + used + 3) [of_nat (designator_len n)]"
    by (simp add: data_store_Inr)
  show "d (4 + used + 3) = of_nat (designator_len (length s))"
    using c(1) by (simp add: d mem_write_one)
  show "used + 9 + length s \<le> 512"
    using c(2) b by (simp add: sz min_def split: if_splits)
  show "d a = data a" if "a < 4 + used" for a
    using that c(3) [of a] by (simp add: d d1 mem_write_below)
qed

lemma scsi_name_stage:
  assumes "evpd83_scsi_name port (data, used) = Inr (d, u)"
  shows "u = used + (designator_len (length (scsi_name_string port)) + 4)"
    and "d (4 + used + 3) = of_nat (designator_len (length (scsi_name_string port)))"
    and "used + 9 + length (scsi_name_string port) \<le> 512"
    and "\<And>a. a < 4 + used \<Longrightarrow> d a = data a"
  using name_stage [OF assms [unfolded evpd83_scsi_name_def Let_def prod.case]] by blast+

lemma target_dev_stage:
  assumes "evpd83_target_dev port (data, used) = Inr (d, u)"
  shows "u = used + (designator_len (length (port_wwn port)) + 4)"
    and "d (4 + used + 3) = of_nat (designator_len (length (port_wwn port)))"
    and "used + 9 + length (port_wwn port) \<le> 512"
    and "\<And>a. a < 4 + used \<Longrightarrow> d a = data a"
  using name_stage [OF assms [unfolded evpd83_target_dev_def Let_def prod.case]] by blast+

lemma finish_stage:
  assumes "evpd83_finish (data, used) = Inr (d, u)"
  shows "u = used" and "\<And>a. 4 \<le> a \<Longrightarrow> d a = data a"
  using assms
  by (auto simp: evpd83_finish_def and_then_Inr data_store_Inr mem_write_above length_be_bytes)

lemma binary_stage:
  assumes "and_then (data_store data (4 + used) [bx, by]) (\<lambda>d1.
           and_then (data_store d1 (4 + used + 3) [4]) (\<lambda>d2.
           and_then (data_store d2 (4 + used + 6) [hi, lo]) (\<lambda>d3.
           Inr (d3, used + 8)))) = Inr (d, u)"
  shows "u = used + 8"
  using assms by (auto simp: and_then_Inr)

lemma five_used:
  assumes "evpd83_five dev wwn port = Inr (d, u)"
  shows "16 \<le> u"
proof -
  from assms obtain s3 s4 where
    r: "evpd83_rel_port port s3 = Inr s4" and t: "evpd83_tpg port s4 = Inr (d, u)"
    by (auto simp: evpd83_five_def and_then_Inr)
  obtain d3 u3 where s3: "s3 = (d3, u3)" by (cases s3)
  obtain d4 u4 where s4: "s4 = (d4, u4)" by (cases s4)
  have "u4 = u3 + 8"
    using binary_stage [OF r [unfolded s3 s4 evpd83_rel_port_def Let_def prod.case]] .
  moreover have "u = u4 + 8"
    using binary_stage [OF t [unfolded s4 evpd83_tpg_def Let_def prod.case]] .
  ultimately show ?thesis by simp
qed

lemma designator_len_bounds:
  assumes "n \<le> 1000"
  shows "min 256 (n + 1) \<le> designator_len n" and "designator_len n \<le> n + 4"
proof -
  define M :: nat where "M = 2 ^ 64"
  have M: "1004 < M" by (simp add: M_def)
  define p where "p = ((M - (n + 1) mod M) mod M) mod 4"
  have p: "p < 4" by (simp add: p_def)
  have l: "(n + 1) mod M = n + 1" using assms M by simp
  have lp: "(n + 1 + p) mod M = n + 1 + p" using assms M p by simp
  have d: "designator_len n =
      (let len1 = (if p \<noteq> 0 then n + 1 + p else n + 1) in if len1 > 256 then 256 else len1)"
    unfolding designator_len_def Let_def M_def [symmetric] p_def l lp [unfolded p_def l]
    by (rule refl)
  show "min 256 (n + 1) \<le> designator_len n" by (simp add: d Let_def)
  show "designator_len n \<le> n + 4" using p by (simp add: d Let_def)
qed


lemma length_scsi_name_string: "length (scsi_name_string port) = length (port_wwn port) + 9"
  by (simp add: scsi_name_string_def fmt_04x_def)

text \<open>
  What the code does when every store stays inside \<^verbatim>\<open>data[512]\<close>: no
  \<^verbatim>\<open>snprintf\<close> truncates, the length byte of the SCSI name string descriptor and of
  the target device descriptor holds the padded length of the string with its NUL, and
  that length is a multiple of 4 below 256, so the cap at 256 is never reached.
\<close>

lemma evpd83_in_bounds_lengths:
  assumes "evpd83_data dev wwn (Some port) = Inr (data, used)"
  shows "\<exists>d5 u5.
           evpd83_five dev wwn port = Inr (d5, u5) \<and>
           unat (data (4 + u5 + 3)) = designator_len (length (scsi_name_string port)) \<and>
           unat (data (4 + (u5 + (designator_len (length (scsi_name_string port)) + 4)) + 3))
             = designator_len (length (port_wwn port)) \<and>
           used = u5 + (designator_len (length (scsi_name_string port)) + 4)
                     + (designator_len (length (port_wwn port)) + 4) \<and>
           4 dvd designator_len (length (scsi_name_string port)) \<and>
           length (scsi_name_string port) < designator_len (length (scsi_name_string port)) \<and>
           designator_len (length (scsi_name_string port)) < 256 \<and>
           4 dvd designator_len (length (port_wwn port)) \<and>
           length (port_wwn port) < designator_len (length (port_wwn port)) \<and>
           designator_len (length (port_wwn port)) < 256"
proof -
  define L where "L = length (port_wwn port)"
  define ls where "ls = designator_len (length (scsi_name_string port))"
  define lt where "lt = designator_len (length (port_wwn port))"
  from assms obtain s5 s6 s7 where
    r5: "evpd83_five dev wwn port = Inr s5"
    and r6: "evpd83_scsi_name port s5 = Inr s6"
    and r7: "evpd83_target_dev port s6 = Inr s7"
    and r8: "evpd83_finish s7 = Inr (data, used)"
    by (auto simp: evpd83_data_def and_then_Inr)
  obtain d5 u5 where s5: "s5 = (d5, u5)" by (cases s5)
  obtain d6 u6 where s6: "s6 = (d6, u6)" by (cases s6)
  obtain d7 u7 where s7: "s7 = (d7, u7)" by (cases s7)
  note a = scsi_name_stage [OF r6 [unfolded s5 s6], folded ls_def]
  note b = target_dev_stage [OF r7 [unfolded s6 s7], folded lt_def L_def]
  note c = finish_stage [OF r8 [unfolded s7]]
  have u5: "16 \<le> u5" using five_used [OF r5 [unfolded s5]] .
  have n: "length (scsi_name_string port) = L + 9"
    by (simp add: length_scsi_name_string L_def)
  have L: "L \<le> 1000" "L + 9 \<le> 1000" using b(3) by simp_all
  note bs = designator_len_bounds [OF L(2), folded n, folded ls_def]
  note bt = designator_len_bounds [OF L(1), unfolded L_def, folded lt_def, folded L_def]
  have tot: "u5 + ls + L + 13 \<le> 512" using b(3) a(1) by simp
  have ls: "L + 10 \<le> ls" "ls < 256"
    using bs tot u5 by (auto simp: n min_def split: if_splits)
  have lt: "L + 1 \<le> lt" "lt < 256"
    using bt tot u5 ls by (auto simp: min_def split: if_splits)
  have x6: "data (4 + u5 + 3) = of_nat ls"
  proof -
    have "data (4 + u5 + 3) = d7 (4 + u5 + 3)" by (rule c(2)) simp
    also have "\<dots> = d6 (4 + u5 + 3)" using a(1) by (intro b(4)) simp
    also have "\<dots> = of_nat ls" by (rule a(2))
    finally show ?thesis .
  qed
  have x7: "data (4 + u6 + 3) = of_nat lt"
  proof -
    have "data (4 + u6 + 3) = d7 (4 + u6 + 3)" by (rule c(2)) simp
    also have "\<dots> = of_nat lt" by (rule b(2))
    finally show ?thesis .
  qed
  have y6: "unat (data (4 + u5 + 3)) = ls"
    unfolding x6 using ls(2) by (simp add: unat_of_nat)
  have y7: "unat (data (4 + (u5 + (ls + 4)) + 3)) = lt"
    unfolding x7 [unfolded a(1)] using lt(2) by (simp add: unat_of_nat)
  have us: "used = u5 + (ls + 4) + (lt + 4)" using c(1) b(1) a(1) by simp
  have "evpd83_five dev wwn port = Inr (d5, u5) \<and>
           unat (data (4 + u5 + 3)) = ls \<and>
           unat (data (4 + (u5 + (ls + 4)) + 3)) = lt \<and>
           used = u5 + (ls + 4) + (lt + 4) \<and>
           4 dvd ls \<and> length (scsi_name_string port) < ls \<and> ls < 256 \<and>
           4 dvd lt \<and> L < lt \<and> lt < 256"
    using r5 [unfolded s5] y6 y7 us ls lt
    by (simp add: n ls_def [symmetric] lt_def [symmetric])
       (simp add: ls_def lt_def designator_len_dvd)
  then show ?thesis unfolding ls_def lt_def L_def by blast
qed

text \<open>
  Claim C7. The code does not build the response for a wwn of any length. With the wwn
  \<^verbatim>\<open>"ab"\<close> and the configuration string \<^verbatim>\<open>"c"\<close> of the device, and a port
  wwn of 223 bytes, the first five descriptors take 57 bytes and the SCSI name string
  descriptor 240 more, with the length byte 236 at \<^verbatim>\<open>data[64]\<close>. The target device
  descriptor then calls \<^verbatim>\<open>snprintf(&data[305], 211, "%s", port->wwn)\<close>, which stores
  210 characters and a NUL, the last four of them past the end of \<^verbatim>\<open>data[512]\<close>.
  With the 3-byte port wwn \<^verbatim>\<open>"iqn"\<close> the same call stays inside the array, returns
  OK, and the two length bytes are 16 and 4.
\<close>

theorem evpd83_long_wwn_out_of_bounds:
  "dev_wwn tdev0 = Some [0x61, 0x62] \<and> length (port_wwn port_iqn) = 223 \<and>
   (\<exists>d5 d6. evpd83_five tdev0 [0x61, 0x62] port_iqn = Inr (d5, 57) \<and>
            evpd83_scsi_name port_iqn (d5, 57) = Inr (d6, 297) \<and>
            evpd83_target_dev port_iqn (d6, 297) = Inl OUT_OF_BOUNDS) \<and>
   size_sub (size_sub 512 297) 4 = 211 \<and>
   c_snprintf mem0 (4 + 297 + 4) 211 (port_wwn port_iqn) = Inl OUT_OF_BOUNDS \<and>
   evpd83_data tdev0 [0x61, 0x62] (Some port_iqn) = Inl OUT_OF_BOUNDS \<and>
   tcmu_emulate_evpd_inquiry_0x83 mem0 tdev0 (Some port_iqn) iov3 3 = Inl OUT_OF_BOUNDS \<and>
   (\<exists>data. evpd83_data tdev0 [0x61, 0x62] (Some port0) = Inr (data, 85) \<and>
           data 64 = 16 \<and> data 84 = 4) \<and>
   (\<exists>iovec' mem'. tcmu_emulate_evpd_inquiry_0x83 mem0 tdev0 (Some port0) iov3 3
                     = Inr (TCMU_STS_OK, iovec', mem'))"
proof -
  obtain d5 where s5: "evpd83_five tdev0 [0x61, 0x62] port_iqn = Inr (d5, 57)"
    using five_sample by blast
  obtain d6 where s6: "evpd83_scsi_name port_iqn (d5, 57) = Inr (d6, 297)"
    using scsi_name_iqn by blast
  note s7 = target_dev_iqn [of d6]
  have a: "\<exists>d5 d6. evpd83_five tdev0 [0x61, 0x62] port_iqn = Inr (d5, 57) \<and>
            evpd83_scsi_name port_iqn (d5, 57) = Inr (d6, 297) \<and>
            evpd83_target_dev port_iqn (d6, 297) = Inl OUT_OF_BOUNDS"
    using s5 s6 s7 by blast
  have b: "evpd83_data tdev0 [0x61, 0x62] (Some port_iqn) = Inl OUT_OF_BOUNDS"
    using s5 s6 s7 by (simp add: evpd83_data_def and_then_def)
  have c: "tcmu_emulate_evpd_inquiry_0x83 mem0 tdev0 (Some port_iqn) iov3 3 = Inl OUT_OF_BOUNDS"
    using b by (simp add: tcmu_emulate_evpd_inquiry_0x83_def tdev0_facts and_then_def)
  obtain data where d: "evpd83_data tdev0 [0x61, 0x62] (Some port0) = Inr (data, 85)"
    "data 64 = 16" "data 84 = 4"
    using data_port0 by blast
  have l: "(3::nat) \<le> length iov3" by (simp add: iov3_def)
  have "fst (tcmu_memcpy_into_iovec mem0 iov3 3 (map data [0 ..< 512]) (85 + 4)) = 5"
    using memcpy_into_loop_count [OF l, of mem0 "map data [0 ..< 512]" 89 0]
    by (simp add: tcmu_memcpy_into_iovec_def iov3_total)
  then have e: "\<exists>iovec' mem'. tcmu_emulate_evpd_inquiry_0x83 mem0 tdev0 (Some port0) iov3 3
                     = Inr (TCMU_STS_OK, iovec', mem')"
    using d(1)
    by (simp add: tcmu_emulate_evpd_inquiry_0x83_def tdev0_facts and_then_def case_prod_beta)
  show ?thesis
    using a b c d e snprintf_iqn(1) snprintf_iqn(2) [of mem0] by (simp add: tdev0_facts sample_lengths)
qed

end
